theory Spec2Isabelle
  imports Complex_Main
begin

section \<open>Match simulation core: data model\<close>

text \<open>
  The simulation works on JavaScript numbers. They are modelled as mathematical reals:
  rounding, NaN and the infinities are outside the model. Where the source starts a
  search with \<open>Infinity\<close> (or \<open>-Infinity\<close>) the model uses \<open>None\<close>, against which every
  finite candidate wins.

  Player objects are shared between \<open>playersById\<close> and the teams' \<open>players\<close> arrays.
  The model keeps them in one store, \<open>playersById\<close>, a list in the insertion order that
  \<open>Object.values\<close> enumerates, looked up by the player's id (the key under which
  \<open>createMatch\<close> files every player); a team holds the ids of its players as references
  into that store. A function that receives a \<open>Player\<close> takes the player's current value
  and writes its mutations back into the store under the player's id.

  The visual-effects state (\<open>engine.vfx\<close>) is written by \<open>stepVfx\<close> and
  \<open>triggerGoalVfx\<close> only and read by nothing in the simulation; it is left out, as are the
  presentation fields of a team (name, code, flag, kit).
\<close>

record vec2 =
  vx :: real
  vy :: real

datatype playerRole = GK | DF | MF | FW

record player =
  pid :: string
  pname :: string
  role :: playerRole
  teamId :: string
  pos :: vec2
  vel :: vec2
  facingRad :: real
  stamina :: real
  hasBall :: bool
  maxSpeed :: real
  accel :: real
  kickPower :: real

record team =
  tid :: string
  players :: "string list"

record ball =
  bpos :: vec2
  bvel :: vec2
  radius :: real
  ownerPlayerId :: "string option"
  lastTouchTeamId :: "string option"
  lastKickPlayerId :: "string option"
  kickNoPickupMs :: real

datatype matchPhase = PRE_KICKOFF | FIRST_HALF | HALF_TIME | SECOND_HALF | FULL_TIME

record matchClock =
  msElapsed :: real
  msTotal :: real
  phase :: matchPhase

record score =
  home :: int
  away :: int

record possession =
  possTeamId :: "string option"
  possPlayerId :: "string option"

record matchState =
  homeTeamId :: string
  awayTeamId :: string
  mscore :: score
  clock :: matchClock
  mball :: ball
  playersById :: "player list"
  teamsById :: "team list"
  humanTeamId :: string
  controlledPlayerId :: string
  mpossession :: possession
  lastEventText :: "string option"

record inputSnapshot =
  moveVec :: vec2
  sprint :: bool
  actionDown :: bool
  actionPressed :: bool
  actionReleased :: bool
  shootDown :: bool
  shootReleased :: bool
  pausePressed :: bool

record engineConfig =
  pitchW :: real
  pitchH :: real
  goalHalfW :: real
  goalDepth :: real
  simDtMs :: real
  maxFrameDtMs :: real
  uiHz :: real
  matchMsTotal :: real

datatype engineEvent =
  GOAL string score string
  | FULL_TIME_EVENT score string

record cpuAiState =
  shootCooldownMs :: real
  dribbleJitterPhase :: real
  chaserPlayerId :: "string option"

record engineState =
  config :: engineConfig
  match :: matchState
  paused :: bool
  kickoffHoldMs :: real
  kickoffAwaitInput :: bool
  uiMsAcc :: real
  celebrationMs :: real
  switchCooldownMs :: real
  stealCooldownMs :: real
  shootChargeMs :: real
  actionChargeMs :: real
  cpuAi :: cpuAiState

text \<open>
  \<open>Math.random()\<close> is an input of the model: one value for each call site of the
  opponent controller, each of which runs at most once in a tick.
\<close>

record randoms =
  rndShotCooldown :: real
  rndPassOffTarget :: real
  rndPassBaseline :: real
  rndPassCooldown :: real

datatype exn = TypeError

subsection \<open>Store access\<close>

definition lookupP :: "player list \<Rightarrow> string \<Rightarrow> player option" where
  "lookupP ps i = find (\<lambda>p. pid p = i) ps"

definition updP :: "string \<Rightarrow> (player \<Rightarrow> player) \<Rightarrow> player list \<Rightarrow> player list" where
  "updP i f ps = map (\<lambda>p. if pid p = i then f p else p) ps"

definition lookupT :: "team list \<Rightarrow> string \<Rightarrow> team option" where
  "lookupT ts i = find (\<lambda>t. tid t = i) ts"

text \<open>A string or null used as a condition: null and the empty string are falsy.\<close>

definition truthy :: "string option \<Rightarrow> bool" where
  "truthy s = (case s of None \<Rightarrow> False | Some i \<Rightarrow> i \<noteq> [])"

text \<open>\<open>match.playersById[id]\<close> for an id that may be null.\<close>

definition lookupOwner :: "player list \<Rightarrow> string option \<Rightarrow> player option" where
  "lookupOwner ps s = (case s of None \<Rightarrow> None | Some i \<Rightarrow> if i = [] then None else lookupP ps i)"

text \<open>The players of a team, dereferenced in the order of the team's array.\<close>

definition derefs :: "player list \<Rightarrow> string list \<Rightarrow> player list" where
  "derefs ps ids = List.map_filter (lookupP ps) ids"

definition setPlayers :: "player list \<Rightarrow> matchState \<Rightarrow> matchState" where
  "setPlayers ps m = m\<lparr>playersById := ps\<rparr>"

definition setBall :: "ball \<Rightarrow> matchState \<Rightarrow> matchState" where
  "setBall b m = m\<lparr>mball := b\<rparr>"

section \<open>Vector math (math/vec2.ts)\<close>

definition V_add :: "vec2 \<Rightarrow> vec2 \<Rightarrow> vec2" where
  "V_add a b = \<lparr>vx = vx a + vx b, vy = vy a + vy b\<rparr>"

definition V_sub :: "vec2 \<Rightarrow> vec2 \<Rightarrow> vec2" where
  "V_sub a b = \<lparr>vx = vx a - vx b, vy = vy a - vy b\<rparr>"

definition V_mul :: "vec2 \<Rightarrow> real \<Rightarrow> vec2" where
  "V_mul a s = \<lparr>vx = vx a * s, vy = vy a * s\<rparr>"

definition V_dot :: "vec2 \<Rightarrow> vec2 \<Rightarrow> real" where
  "V_dot a b = vx a * vx b + vy a * vy b"

definition V_lenSq :: "vec2 \<Rightarrow> real" where
  "V_lenSq a = vx a * vx a + vy a * vy a"

definition V_len :: "vec2 \<Rightarrow> real" where
  "V_len a = sqrt (V_lenSq a)"

definition V_norm :: "vec2 \<Rightarrow> vec2" where
  "V_norm a = (let l = V_len a in
     if l \<le> 1 / 10 ^ 9 then \<lparr>vx = 0, vy = 0\<rparr> else \<lparr>vx = vx a / l, vy = vy a / l\<rparr>)"

definition V_distSq :: "vec2 \<Rightarrow> vec2 \<Rightarrow> real" where
  "V_distSq a b = V_lenSq (V_sub a b)"

definition V_dist :: "vec2 \<Rightarrow> vec2 \<Rightarrow> real" where
  "V_dist a b = sqrt (V_distSq a b)"

definition V_clampLen :: "vec2 \<Rightarrow> real \<Rightarrow> vec2" where
  "V_clampLen a maxLen = (let l = V_len a in
     if l \<le> maxLen then a
     else if l \<le> 1 / 10 ^ 9 then \<lparr>vx = 0, vy = 0\<rparr>
     else (let s = maxLen / l in \<lparr>vx = vx a * s, vy = vy a * s\<rparr>))"

definition clamp :: "real \<Rightarrow> real \<Rightarrow> real \<Rightarrow> real" where
  "clamp x lo hi = max lo (min hi x)"

text \<open>\<open>Math.atan2(y, x)\<close> on reals (no signed zeros).\<close>

definition atan2 :: "real \<Rightarrow> real \<Rightarrow> real" where
  "atan2 y x =
     (if 0 < x then arctan (y / x)
      else if x < 0 then (if 0 \<le> y then arctan (y / x) + pi else arctan (y / x) - pi)
      else if 0 < y then pi / 2
      else if y < 0 then - (pi / 2)
      else 0)"

section \<open>Physics primitives (sim/physics.ts)\<close>

definition PLAYER_RADIUS :: real where "PLAYER_RADIUS = 2.0"
definition BALL_FRICTION_PER_SEC :: real where "BALL_FRICTION_PER_SEC = 0.82"
definition BALL_RESTITUTION :: real where "BALL_RESTITUTION = 0.55"
definition BALL_CLAIM_SPEED_MAX :: real where "BALL_CLAIM_SPEED_MAX = 7.5"
definition BALL_CLAIM_DIST :: real where "BALL_CLAIM_DIST = PLAYER_RADIUS + 1.2 + 0.9"
definition BALL_RELEASE_KICK_SPEED_MIN :: real where "BALL_RELEASE_KICK_SPEED_MIN = 8"

record goalResult =
  scored :: bool
  scoringTeamId :: "string option"

definition integratePlayer :: "player \<Rightarrow> vec2 \<Rightarrow> real \<Rightarrow> player" where
  "integratePlayer p desiredVel dt =
     (let dv = V_sub desiredVel (vel p);
          maxDv = accel p * dt;
          dvClamped = V_clampLen dv maxDv;
          v1 = \<lparr>vx = vx (vel p) + vx dvClamped, vy = vy (vel p) + vy dvClamped\<rparr>;
          vLen = V_len v1;
          desiredSpeed = V_len desiredVel;
          speedCap = max (maxSpeed p) desiredSpeed;
          v2 = (if vLen > speedCap
                then (let s = speedCap / vLen in \<lparr>vx = vx v1 * s, vy = vy v1 * s\<rparr>)
                else v1);
          pos2 = \<lparr>vx = vx (pos p) + vx v2 * dt, vy = vy (pos p) + vy v2 * dt\<rparr>
      in p\<lparr>vel := v2, pos := pos2,
            facingRad := (if vLen > 0.2 then atan2 (vy v2) (vx v2) else facingRad p)\<rparr>)"

definition containPlayerInPitch :: "engineConfig \<Rightarrow> player \<Rightarrow> player" where
  "containPlayerInPitch cfg p =
     (let halfW = pitchW cfg / 2; halfH = pitchH cfg / 2
      in p\<lparr>pos := \<lparr>vx = clamp (vx (pos p)) (- halfW + PLAYER_RADIUS) (halfW - PLAYER_RADIUS),
                     vy = clamp (vy (pos p)) (- halfH + PLAYER_RADIUS) (halfH - PLAYER_RADIUS)\<rparr>\<rparr>)"

definition detectGoal :: "matchState \<Rightarrow> engineConfig \<Rightarrow> ball \<Rightarrow> goalResult" where
  "detectGoal m cfg b =
     (let halfW = pitchW cfg / 2;
          inMouth = (\<bar>vy (bpos b)\<bar> \<le> goalHalfW cfg)
      in if \<not> inMouth then \<lparr>scored = False, scoringTeamId = None\<rparr>
         else if vx (bpos b) \<le> - halfW - radius b
           then \<lparr>scored = True, scoringTeamId = Some (awayTeamId m)\<rparr>
         else if vx (bpos b) \<ge> halfW + radius b
           then \<lparr>scored = True, scoringTeamId = Some (homeTeamId m)\<rparr>
         else \<lparr>scored = False, scoringTeamId = None\<rparr>)"

definition bounceBallOffPitch :: "engineConfig \<Rightarrow> ball \<Rightarrow> ball" where
  "bounceBallOffPitch cfg b =
     (let halfW = pitchW cfg / 2; halfH = pitchH cfg / 2;
          inMouthBand = (\<bar>vy (bpos b)\<bar> \<le> goalHalfW cfg);
          b1 = (if \<not> inMouthBand then
                  (if vx (bpos b) < - halfW + radius b
                   then b\<lparr>bpos := (bpos b)\<lparr>vx := - halfW + radius b\<rparr>,
                          bvel := (bvel b)\<lparr>vx := \<bar>vx (bvel b)\<bar> * BALL_RESTITUTION\<rparr>\<rparr>
                   else if vx (bpos b) > halfW - radius b
                   then b\<lparr>bpos := (bpos b)\<lparr>vx := halfW - radius b\<rparr>,
                          bvel := (bvel b)\<lparr>vx := - \<bar>vx (bvel b)\<bar> * BALL_RESTITUTION\<rparr>\<rparr>
                   else b)
                else b)
      in if vy (bpos b1) < - halfH + radius b1
         then b1\<lparr>bpos := (bpos b1)\<lparr>vy := - halfH + radius b1\<rparr>,
                 bvel := (bvel b1)\<lparr>vy := \<bar>vy (bvel b1)\<bar> * BALL_RESTITUTION\<rparr>\<rparr>
         else if vy (bpos b1) > halfH - radius b1
         then b1\<lparr>bpos := (bpos b1)\<lparr>vy := halfH - radius b1\<rparr>,
                 bvel := (bvel b1)\<lparr>vy := - \<bar>vy (bvel b1)\<bar> * BALL_RESTITUTION\<rparr>\<rparr>
         else b1)"

text \<open>\<open>integrateFreeBall\<close> mutates the ball and returns the goal result; the model
  returns both. On a goal it returns before the bounce.\<close>

definition integrateFreeBall :: "matchState \<Rightarrow> engineConfig \<Rightarrow> ball \<Rightarrow> real \<Rightarrow> ball \<times> goalResult" where
  "integrateFreeBall m cfg b dt =
     (let p1 = \<lparr>vx = vx (bpos b) + vx (bvel b) * dt, vy = vy (bpos b) + vy (bvel b) * dt\<rparr>;
          f = BALL_FRICTION_PER_SEC powr dt;
          v1x = vx (bvel b) * f;
          v1y = vy (bvel b) * f;
          v2 = \<lparr>vx = (if \<bar>v1x\<bar> < 0.05 then 0 else v1x), vy = (if \<bar>v1y\<bar> < 0.05 then 0 else v1y)\<rparr>;
          b1 = b\<lparr>bpos := p1, bvel := v2\<rparr>;
          goal = detectGoal m cfg b1
      in if scored goal then (b1, goal)
         else (bounceBallOffPitch cfg b1, \<lparr>scored = False, scoringTeamId = None\<rparr>))"

definition attachBallToOwner :: "ball \<Rightarrow> player \<Rightarrow> ball" where
  "attachBallToOwner b owner =
     (let front = \<lparr>vx = cos (facingRad owner), vy = sin (facingRad owner)\<rparr>;
          offset = PLAYER_RADIUS + radius b * 0.85
      in b\<lparr>bpos := \<lparr>vx = vx (pos owner) + vx front * offset, vy = vy (pos owner) + vy front * offset\<rparr>,
            bvel := \<lparr>vx = vx (vel owner), vy = vy (vel owner)\<rparr>\<rparr>)"

text \<open>The guard shared by claim, pickup and steal: the last kicker is skipped while the
  kick-immunity countdown runs.\<close>

definition kickImmune :: "ball \<Rightarrow> player \<Rightarrow> bool" where
  "kickImmune b p = (kickNoPickupMs b > 0 \<and> truthy (lastKickPlayerId b) \<and> Some (pid p) = lastKickPlayerId b)"

text \<open>One iteration of a nearest-player search: \<open>ok p\<close> is the loop's filter, \<open>d2 p\<close> the
  squared distance; the running best starts at \<open>(null, Infinity)\<close>, here \<open>None\<close>.\<close>

definition nearestStep :: "(player \<Rightarrow> bool) \<Rightarrow> (player \<Rightarrow> real) \<Rightarrow> (player \<times> real) option \<Rightarrow> player \<Rightarrow> (player \<times> real) option" where
  "nearestStep ok d2 best p =
     (if \<not> ok p then best
      else case best of
             None \<Rightarrow> Some (p, d2 p)
           | Some (bp, bd) \<Rightarrow> if d2 p < bd then Some (p, d2 p) else best)"

definition nearest :: "(player \<Rightarrow> bool) \<Rightarrow> (player \<Rightarrow> real) \<Rightarrow> player list \<Rightarrow> (player \<times> real) option" where
  "nearest ok d2 ps = foldl (nearestStep ok d2) None ps"

definition clearHasBall :: "player list \<Rightarrow> player list" where
  "clearHasBall ps = map (\<lambda>x. x\<lparr>hasBall := False\<rparr>) ps"

definition noPossession :: possession where
  "noPossession = \<lparr>possTeamId = None, possPlayerId = None\<rparr>"

definition tryClaimBall :: "matchState \<Rightarrow> matchState \<times> possession" where
  "tryClaimBall m =
     (let b = mball m in
      if truthy (ownerPlayerId b) then (m, mpossession m)
      else if V_len (bvel b) > BALL_CLAIM_SPEED_MAX then (m, noPossession)
      else case nearest (\<lambda>p. \<not> kickImmune b p) (\<lambda>p. V_distSq (pos p) (bpos b)) (playersById m) of
             None \<Rightarrow> (m, noPossession)
           | Some (bestP, bestD2) \<Rightarrow>
               if \<not> (bestD2 \<le> BALL_CLAIM_DIST * BALL_CLAIM_DIST) then (m, noPossession)
               else (m\<lparr>mball := b\<lparr>ownerPlayerId := Some (pid bestP),
                                   lastTouchTeamId := Some (teamId bestP),
                                   lastKickPlayerId := None,
                                   kickNoPickupMs := 0\<rparr>,
                        playersById := updP (pid bestP) (\<lambda>p. p\<lparr>hasBall := True\<rparr>)
                                         (clearHasBall (playersById m))\<rparr>,
                     \<lparr>possTeamId = Some (teamId bestP), possPlayerId = Some (pid bestP)\<rparr>))"

definition releaseBallWithKick :: "matchState \<Rightarrow> player \<Rightarrow> vec2 \<Rightarrow> real \<Rightarrow> matchState" where
  "releaseBallWithKick m kicker dir speed =
     (let b = mball m;
          dirN = V_norm dir;
          kickSpeed = max speed BALL_RELEASE_KICK_SPEED_MIN
      in m\<lparr>mball := b\<lparr>ownerPlayerId := None,
                        lastTouchTeamId := Some (teamId kicker),
                        lastKickPlayerId := Some (pid kicker),
                        kickNoPickupMs := 220,
                        bvel := \<lparr>vx = vx dirN * kickSpeed + vx (vel kicker) * 0.35,
                                 vy = vy dirN * kickSpeed + vy (vel kicker) * 0.35\<rparr>\<rparr>,
            playersById := updP (pid kicker) (\<lambda>p. p\<lparr>hasBall := False\<rparr>) (playersById m)\<rparr>)"

datatype goalSide = GoalLeft | GoalRight

definition getGoalCenter :: "engineConfig \<Rightarrow> goalSide \<Rightarrow> vec2" where
  "getGoalCenter cfg side = (let halfW = pitchW cfg / 2 in
     \<lparr>vx = (if side = GoalLeft then - halfW else halfW), vy = 0\<rparr>)"

definition getAttackDirX :: "matchState \<Rightarrow> string \<Rightarrow> real" where
  "getAttackDirX m t = (if t = homeTeamId m then 1 else - 1)"

section \<open>Match setup (engine/defaultConfig.ts, engine/createMatch.ts)\<close>

definition DEFAULT_ENGINE_CONFIG :: engineConfig where
  "DEFAULT_ENGINE_CONFIG =
     \<lparr>pitchW = 120, pitchH = 80, goalHalfW = 10, goalDepth = 4,
      simDtMs = 1000 / 60, maxFrameDtMs = 100, uiHz = 10, matchMsTotal = 3 * 60 * 1000\<rparr>"

definition pId :: "string \<Rightarrow> string \<Rightarrow> string" where
  "pId t n = t @ '':p'' @ n"

definition makePlayer :: "string \<Rightarrow> string \<Rightarrow> playerRole \<Rightarrow> string \<Rightarrow> vec2 \<Rightarrow> real \<Rightarrow> real \<Rightarrow> real \<Rightarrow> player" where
  "makePlayer i n r t p ms ac kp =
     \<lparr>pid = i, pname = n, role = r, teamId = t, pos = \<lparr>vx = vx p, vy = vy p\<rparr>,
      vel = \<lparr>vx = 0, vy = 0\<rparr>, facingRad = 0, stamina = 1, hasBall = False,
      maxSpeed = ms, accel = ac, kickPower = kp\<rparr>"

definition homePlayers :: "engineConfig \<Rightarrow> player list" where
  "homePlayers cfg =
     [makePlayer (pId ''kilo'' ''1'') ''Kilo GK'' GK ''kilo'' \<lparr>vx = - pitchW cfg * 0.45, vy = 0\<rparr> 14 60 26,
      makePlayer (pId ''kilo'' ''2'') ''Kilo DF'' DF ''kilo'' \<lparr>vx = - pitchW cfg * 0.25, vy = - 12\<rparr> 16 70 28,
      makePlayer (pId ''kilo'' ''3'') ''Kilo MF'' MF ''kilo'' \<lparr>vx = - pitchW cfg * 0.15, vy = 0\<rparr> 18 75 30,
      makePlayer (pId ''kilo'' ''4'') ''Kilo FW1'' FW ''kilo'' \<lparr>vx = - pitchW cfg * 0.05, vy = - 14\<rparr> 20 85 32,
      makePlayer (pId ''kilo'' ''5'') ''Kilo FW2'' FW ''kilo'' \<lparr>vx = - pitchW cfg * 0.05, vy = 14\<rparr> 20 85 32]"

text \<open>The away team's id and three-letter code come from the match setup; the default
  is the team \<open>cpu\<close> with code \<open>CPU\<close>.\<close>

definition awayPlayers :: "engineConfig \<Rightarrow> string \<Rightarrow> string \<Rightarrow> player list" where
  "awayPlayers cfg a code3 =
     map (\<lambda>p. p\<lparr>facingRad := pi\<rparr>)
     [makePlayer (pId a ''1'') (code3 @ '' GK'') GK a \<lparr>vx = pitchW cfg * 0.45, vy = 0\<rparr> 14 60 26,
      makePlayer (pId a ''2'') (code3 @ '' DF'') DF a \<lparr>vx = pitchW cfg * 0.25, vy = 12\<rparr> 16 70 28,
      makePlayer (pId a ''3'') (code3 @ '' MF'') MF a \<lparr>vx = pitchW cfg * 0.15, vy = 0\<rparr> 18 75 30,
      makePlayer (pId a ''4'') (code3 @ '' FW1'') FW a \<lparr>vx = pitchW cfg * 0.05, vy = 14\<rparr> 20 85 32,
      makePlayer (pId a ''5'') (code3 @ '' FW2'') FW a \<lparr>vx = pitchW cfg * 0.05, vy = - 14\<rparr> 20 85 32]"

text \<open>\<open>createMatch\<close> for an away team whose id differs from \<open>kilo\<close> (with the same id
  the second team would replace the first in \<open>teamsById\<close>).\<close>

definition createMatch :: "engineConfig \<Rightarrow> (string \<times> string) option \<Rightarrow> matchState" where
  "createMatch cfg setup =
     (let a = (case setup of None \<Rightarrow> ''cpu'' | Some s \<Rightarrow> fst s);
          code3 = (case setup of None \<Rightarrow> ''CPU'' | Some s \<Rightarrow> snd s);
          hp = homePlayers cfg;
          ap = awayPlayers cfg a code3
      in \<lparr>homeTeamId = ''kilo'', awayTeamId = a,
          mscore = \<lparr>home = 0, away = 0\<rparr>,
          clock = \<lparr>msElapsed = 0, msTotal = matchMsTotal cfg, phase = FIRST_HALF\<rparr>,
          mball = \<lparr>bpos = \<lparr>vx = 0, vy = 0\<rparr>, bvel = \<lparr>vx = 0, vy = 0\<rparr>, radius = 1.2,
                    ownerPlayerId = None, lastTouchTeamId = None,
                    lastKickPlayerId = None, kickNoPickupMs = 0\<rparr>,
          playersById = hp @ ap,
          teamsById = [\<lparr>tid = ''kilo'', players = map pid hp\<rparr>, \<lparr>tid = a, players = map pid ap\<rparr>],
          humanTeamId = ''kilo'',
          controlledPlayerId = pId ''kilo'' ''3'',
          mpossession = \<lparr>possTeamId = None, possPlayerId = None\<rparr>,
          lastEventText = None\<rparr>)"

section \<open>Ball contact (sim/step.ts)\<close>

definition BALL_PICKUP_PAD :: real where "BALL_PICKUP_PAD = 0.35"
definition BALL_STEAL_PAD :: real where "BALL_STEAL_PAD = - 0.85"
definition STEAL_APPROACH_SPEED_MIN :: real where "STEAL_APPROACH_SPEED_MIN = 5.5"

definition setBallOwner :: "matchState \<Rightarrow> player \<Rightarrow> matchState" where
  "setBallOwner m p =
     m\<lparr>mball := (mball m)\<lparr>ownerPlayerId := Some (pid p), lastTouchTeamId := Some (teamId p)\<rparr>,
       playersById := updP (pid p) (\<lambda>x. x\<lparr>hasBall := True\<rparr>) (clearHasBall (playersById m)),
       mpossession := \<lparr>possTeamId = Some (teamId p), possPlayerId = Some (pid p)\<rparr>\<rparr>"

definition pickupContactR2 :: "ball \<Rightarrow> real" where
  "pickupContactR2 b = (let contactR = PLAYER_RADIUS + radius b + BALL_PICKUP_PAD in contactR * contactR)"

definition tryImmediateBallPickup :: "matchState \<Rightarrow> matchState \<times> player option" where
  "tryImmediateBallPickup m =
     (let b = mball m in
      if truthy (ownerPlayerId b) then (m, None)
      else case nearest (\<lambda>p. \<not> kickImmune b p \<and> V_distSq (pos p) (bpos b) \<le> pickupContactR2 b)
                        (\<lambda>p. V_distSq (pos p) (bpos b)) (playersById m) of
             None \<Rightarrow> (m, None)
           | Some (best, bestD2) \<Rightarrow> (setBallOwner m best, Some best))"

definition stealContactR2 :: "ball \<Rightarrow> real" where
  "stealContactR2 b = (let contactR = PLAYER_RADIUS + radius b + BALL_STEAL_PAD in contactR * contactR)"

definition stealApproach :: "ball \<Rightarrow> player \<Rightarrow> real" where
  "stealApproach b p = V_dot (vel p) (V_norm (V_sub (bpos b) (pos p)))"

definition stealCandidate :: "ball \<Rightarrow> player \<Rightarrow> player \<Rightarrow> bool" where
  "stealCandidate b owner p =
     (pid p \<noteq> pid owner \<and> \<not> kickImmune b p
      \<and> \<not> stealApproach b p < STEAL_APPROACH_SPEED_MIN
      \<and> V_distSq (pos p) (bpos b) \<le> stealContactR2 b)"

definition tryStealOwnedBallByBallContact :: "matchState \<Rightarrow> matchState \<times> player option" where
  "tryStealOwnedBallByBallContact m =
     (let b = mball m in
      if \<not> truthy (ownerPlayerId b) then (m, None)
      else case lookupOwner (playersById m) (ownerPlayerId b) of
             None \<Rightarrow> (m, None)
           | Some owner \<Rightarrow>
               (case nearest (stealCandidate b owner) (\<lambda>p. V_distSq (pos p) (bpos b)) (playersById m) of
                  None \<Rightarrow> (m, None)
                | Some (best, bestD2) \<Rightarrow> (setBallOwner m best, Some best)))"

section \<open>Opponent controller (sim/ai.ts)\<close>

text \<open>\<open>match.teamsById[teamId]?.players ?? []\<close>: the references held by the team.\<close>

definition teamPlayerIds :: "matchState \<Rightarrow> string \<Rightarrow> string list" where
  "teamPlayerIds m t = (case lookupT (teamsById m) t of None \<Rightarrow> [] | Some tm \<Rightarrow> players tm)"

definition getTeamPlayers :: "matchState \<Rightarrow> string \<Rightarrow> player list" where
  "getTeamPlayers m t = derefs (playersById m) (teamPlayerIds m t)"

definition oppTeamId :: "matchState \<Rightarrow> string \<Rightarrow> string" where
  "oppTeamId m t = (if t = homeTeamId m then awayTeamId m else homeTeamId m)"

definition pickCpuChaser :: "matchState \<Rightarrow> team \<Rightarrow> player option" where
  "pickCpuChaser m cpuTeam =
     map_option fst (nearest (\<lambda>p. role p \<noteq> GK) (\<lambda>p. V_distSq (pos p) (bpos (mball m)))
                       (derefs (playersById m) (players cpuTeam)))"

definition cpuChaseBall :: "matchState \<Rightarrow> player \<Rightarrow> matchState" where
  "cpuChaseBall m p =
     (let toBall = V_sub (bpos (mball m)) (pos p);
          dir = V_norm toBall
      in m\<lparr>playersById := updP (pid p)
              (\<lambda>q. q\<lparr>vel := \<lparr>vx = vx (vel q) + vx dir * 0.0001, vy = vy (vel q) + vy dir * 0.0001\<rparr>,
                      facingRad := atan2 (vy dir) (vx dir)\<rparr>)
              (playersById m)\<rparr>)"

definition clamp01 :: "real \<Rightarrow> real" where
  "clamp01 x = max 0 (min 1 x)"

text \<open>The smallest distance from \<open>pos\<close> to an opponent; \<open>None\<close> is the \<open>Infinity\<close> of an
  empty opposing team.\<close>

definition minStep :: "real option \<Rightarrow> real \<Rightarrow> real option" where
  "minStep best d = (case best of None \<Rightarrow> Some d | Some b \<Rightarrow> if d < b then Some d else best)"

definition nearestOpponentDist :: "matchState \<Rightarrow> string \<Rightarrow> vec2 \<Rightarrow> real option" where
  "nearestOpponentDist m t ps =
     foldl minStep None (map (\<lambda>q. V_dist (pos q) ps) (getTeamPlayers m (oppTeamId m t)))"

text \<open>\<open>x < c\<close> for a value that may be \<open>Infinity\<close>.\<close>

definition optLess :: "real option \<Rightarrow> real \<Rightarrow> bool" where
  "optLess x c = (case x of None \<Rightarrow> False | Some v \<Rightarrow> v < c)"

definition pointSegDistSq :: "vec2 \<Rightarrow> vec2 \<Rightarrow> vec2 \<Rightarrow> real" where
  "pointSegDistSq p a b =
     (let ab = V_sub b a; ap = V_sub p a; abLenSq = V_lenSq ab
      in if abLenSq \<le> 1 / 10 ^ 9 then V_lenSq ap
         else (let t = max 0 (min 1 (V_dot ap ab / abLenSq));
                   closest = V_add a (V_mul ab t)
               in V_distSq p closest))"

text \<open>The score of a pass candidate, or \<open>None\<close> where the loop body continues.\<close>

definition cpuPassScore :: "engineConfig \<Rightarrow> matchState \<Rightarrow> team \<Rightarrow> player \<Rightarrow> vec2 \<Rightarrow> player \<Rightarrow> real option" where
  "cpuPassScore cfg m cpuTeam owner towardGoalDir t =
     (if role t = GK then None
      else if pid t = pid owner then None
      else (let to = V_sub (pos t) (pos owner); dist = V_len to in
        if dist < 8 then None
        else (let toN = V_norm to; ahead = V_dot toN towardGoalDir in
          if ahead < 0.2 then None
          else if optLess (nearestOpponentDist m (tid cpuTeam) (pos t)) 5.2 then None
          else (let opp = getTeamPlayers m (oppTeamId m (tid cpuTeam));
                    laneMin = foldl minStep None
                                (map (\<lambda>q. sqrt (pointSegDistSq (pos q) (pos owner) (pos t))) opp);
                    lanePenalty = (case laneMin of None \<Rightarrow> 0
                                   | Some l \<Rightarrow> if l < 6.5 then (6.5 - l) * 1.1 else 0);
                    centerBonus = clamp01 (1 - \<bar>vy (pos t)\<bar> / (goalHalfW cfg * 1.35)) * 0.9
                in Some (ahead * 2.2 + centerBonus - dist * 0.04 - lanePenalty)))))"

definition cpuPassStep :: "(player \<Rightarrow> real option) \<Rightarrow> (player \<times> real) option \<Rightarrow> player \<Rightarrow> (player \<times> real) option" where
  "cpuPassStep sc best t =
     (case sc t of
        None \<Rightarrow> best
      | Some s \<Rightarrow> (case best of
                     None \<Rightarrow> Some (t, s)
                   | Some (bp, bs) \<Rightarrow> if s > bs then Some (t, s) else best))"

definition pickCpuPassTarget :: "engineConfig \<Rightarrow> matchState \<Rightarrow> team \<Rightarrow> player \<Rightarrow> vec2 \<Rightarrow> player option" where
  "pickCpuPassTarget cfg m cpuTeam owner towardGoalDir =
     (case foldl (cpuPassStep (cpuPassScore cfg m cpuTeam owner towardGoalDir)) None
             (derefs (playersById m) (players cpuTeam)) of
        None \<Rightarrow> None
      | Some (best, bestScore) \<Rightarrow> if bestScore < 0.35 then None else Some best)"

definition cpuDribbleAndShoot :: "engineConfig \<Rightarrow> matchState \<Rightarrow> team \<Rightarrow> player \<Rightarrow> cpuAiState \<Rightarrow> randoms \<Rightarrow> matchState \<times> cpuAiState" where
  "cpuDribbleAndShoot cfg m cpuTeam owner0 ai rnd =
     (let targetGoal = getGoalCenter cfg GoalLeft;
          toGoal = V_sub targetGoal (pos owner0);
          baseDir = V_norm toGoal;
          jitter = sin (dribbleJitterPhase ai) * 0.22;
          dribbleDir = V_norm \<lparr>vx = vx baseDir, vy = vy baseDir + jitter\<rparr>;
          facing = atan2 (vy dribbleDir) (vx dribbleDir);
          owner = owner0\<lparr>facingRad := facing\<rparr>;
          m1 = m\<lparr>playersById := updP (pid owner0) (\<lambda>q. q\<lparr>facingRad := facing\<rparr>) (playersById m)\<rparr>;
          distToGoal = V_len toGoal;
          alignedForShot = (\<bar>vy (pos owner)\<bar> < goalHalfW cfg * 1.15);
          shouldShoot = (distToGoal < pitchW cfg * 0.32 \<and> alignedForShot \<and> shootCooldownMs ai \<le> 0)
      in if shouldShoot
         then (releaseBallWithKick m1 owner dribbleDir (kickPower owner * 1.18),
               ai\<lparr>shootCooldownMs := 900 + rndShotCooldown rnd * 700\<rparr>)
         else (let underPressure = optLess (nearestOpponentDist m1 (teamId owner) (pos owner)) 7.0;
                   wantsPass = (shootCooldownMs ai \<le> 0 \<and>
                                (underPressure \<or> (\<not> alignedForShot \<and> rndPassOffTarget rnd < 0.22)
                                 \<or> rndPassBaseline rnd < 0.025))
               in if wantsPass
                  then (case pickCpuPassTarget cfg m1 cpuTeam owner baseDir of
                          None \<Rightarrow> (m1, ai)
                        | Some passTarget \<Rightarrow>
                            (let to = V_sub (pos passTarget) (pos owner);
                                 dist = V_len to;
                                 dir = V_norm to;
                                 distFactor = clamp01 (dist / 46)
                             in (releaseBallWithKick m1 owner dir (kickPower owner * (0.78 + 0.42 * distFactor)),
                                 ai\<lparr>shootCooldownMs := 650 + rndPassCooldown rnd * 550\<rparr>)))
                  else (m1, ai)))"

definition stepCpuAi :: "engineConfig \<Rightarrow> matchState \<Rightarrow> real \<Rightarrow> cpuAiState \<Rightarrow> randoms \<Rightarrow> matchState \<times> cpuAiState" where
  "stepCpuAi cfg m dtMs ai rnd =
     (case lookupT (teamsById m) (awayTeamId m) of
        None \<Rightarrow> (m, ai)
      | Some cpuTeam \<Rightarrow>
          (let ai1 = ai\<lparr>shootCooldownMs := max 0 (shootCooldownMs ai - dtMs),
                        dribbleJitterPhase := dribbleJitterPhase ai + (dtMs / 1000) * 1.4,
                        chaserPlayerId := None\<rparr>;
               cpuOwner = lookupOwner (playersById m) (ownerPlayerId (mball m));
               cpuHasBall = (case cpuOwner of None \<Rightarrow> False | Some ow \<Rightarrow> teamId ow = tid cpuTeam)
           in case (if cpuHasBall then cpuOwner else None) of
                Some ow \<Rightarrow> cpuDribbleAndShoot cfg m cpuTeam ow ai1 rnd
              | None \<Rightarrow>
                  (case pickCpuChaser m cpuTeam of
                     None \<Rightarrow> (m, ai1)
                   | Some chaser \<Rightarrow> (cpuChaseBall m chaser, ai1\<lparr>chaserPlayerId := Some (pid chaser)\<rparr>))))"


section \<open>Kickoff reset (engine/reset.ts)\<close>

definition setPos :: "real \<Rightarrow> real \<Rightarrow> player \<Rightarrow> player" where
  "setPos x y p = p\<lparr>pos := \<lparr>vx = x, vy = y\<rparr>\<rparr>"

text \<open>Writes \<open>f\<close> to the player that an optional reference points to.\<close>

definition updOpt :: "player option \<Rightarrow> (player \<Rightarrow> player) \<Rightarrow> player list \<Rightarrow> player list" where
  "updOpt r f ps = (case r of None \<Rightarrow> ps | Some p \<Rightarrow> updP (pid p) f ps)"

definition nthOpt :: "'a list \<Rightarrow> nat \<Rightarrow> 'a option" where
  "nthOpt xs n = (if n < length xs then Some (xs ! n) else None)"

definition placeTeamKickoff :: "engineConfig \<Rightarrow> string list \<Rightarrow> goalSide \<Rightarrow> player list \<Rightarrow> player list" where
  "placeTeamKickoff cfg ids side ps =
     (let xSign = (if side = GoalLeft then - 1 else 1 :: real);
          x0 = xSign * pitchW cfg * 0.42;
          x1 = xSign * pitchW cfg * 0.22;
          x2 = xSign * pitchW cfg * 0.08;
          team0 = derefs ps ids;
          gk = find (\<lambda>p. role p = GK) team0;
          df = find (\<lambda>p. role p = DF) team0;
          mf = find (\<lambda>p. role p = MF) team0;
          fws = filter (\<lambda>p. role p = FW) team0;
          ps1 = updOpt gk (setPos x0 0) ps;
          ps2 = updOpt df (setPos x1 (if side = GoalLeft then - 12 else 12)) ps1;
          ps3 = updOpt mf (setPos x2 0) ps2;
          ps4 = updOpt (nthOpt fws 0) (setPos (xSign * pitchW cfg * 0.02) (- 10)) ps3;
          ps5 = updOpt (nthOpt fws 1) (setPos (xSign * pitchW cfg * 0.02) 10) ps4
      in foldl (\<lambda>acc i. updP i (\<lambda>p. p\<lparr>facingRad := (if side = GoalLeft then 0 else pi)\<rparr>) acc) ps5 ids)"

text \<open>Reading \<open>.players\<close> of a missing team, or \<open>.id\<close> of the first player of an empty
  human team, throws a \<open>TypeError\<close>.\<close>

definition resetToKickoff :: "engineConfig \<Rightarrow> matchState \<Rightarrow> exn + matchState" where
  "resetToKickoff cfg m =
     (case (lookupT (teamsById m) (homeTeamId m), lookupT (teamsById m) (awayTeamId m)) of
        (Some homeT, Some awayT) \<Rightarrow>
          (let b = (mball m)\<lparr>ownerPlayerId := None, lastTouchTeamId := None, lastKickPlayerId := None,
                             kickNoPickupMs := 0, bpos := \<lparr>vx = 0, vy = 0\<rparr>, bvel := \<lparr>vx = 0, vy = 0\<rparr>\<rparr>;
               ps1 = foldl (\<lambda>acc i. updP i (\<lambda>p. p\<lparr>vel := \<lparr>vx = 0, vy = 0\<rparr>, hasBall := False\<rparr>) acc)
                       (playersById m) (players homeT @ players awayT);
               ps2 = placeTeamKickoff cfg (players homeT) GoalLeft ps1;
               ps3 = placeTeamKickoff cfg (players awayT) GoalRight ps2;
               m1 = m\<lparr>mball := b, mpossession := \<lparr>possTeamId = None, possPlayerId = None\<rparr>,
                      playersById := ps3\<rparr>;
               controlled = lookupP ps3 (controlledPlayerId m1);
               keep = (case controlled of None \<Rightarrow> False
                       | Some c \<Rightarrow> \<not> (teamId c \<noteq> humanTeamId m1 \<or> role c = GK))
           in if keep then Inr m1
              else (case lookupT (teamsById m1) (humanTeamId m1) of
                      None \<Rightarrow> Inl TypeError
                    | Some humanT \<Rightarrow>
                        (let hp = derefs ps3 (players humanT) in
                         case find (\<lambda>p. role p = MF) hp of
                           Some mf \<Rightarrow> Inr (m1\<lparr>controlledPlayerId := pid mf\<rparr>)
                         | None \<Rightarrow>
                             (case find (\<lambda>p. role p \<noteq> GK) hp of
                                Some x \<Rightarrow> Inr (m1\<lparr>controlledPlayerId := pid x\<rparr>)
                              | None \<Rightarrow>
                                  (case hp of
                                     [] \<Rightarrow> Inl TypeError
                                   | p0 # _ \<Rightarrow> Inr (m1\<lparr>controlledPlayerId := pid p0\<rparr>))))))
      | _ \<Rightarrow> Inl TypeError)"


section \<open>Simulation step (sim/step.ts)\<close>

definition SPRINT_MULT :: real where "SPRINT_MULT = 1.35"
definition SWITCH_COOLDOWN_MS :: real where "SWITCH_COOLDOWN_MS = 250"
definition AUTO_SWITCH_HYSTERESIS :: real where "AUTO_SWITCH_HYSTERESIS = 2.25"
definition SHOOT_CHARGE_FULL_MS :: real where "SHOOT_CHARGE_FULL_MS = 650"
definition ACTION_CHARGE_FULL_MS :: real where "ACTION_CHARGE_FULL_MS = 520"
definition ACTION_TAP_THRESHOLD_MS :: real where "ACTION_TAP_THRESHOLD_MS = 160"
definition CPU_DEFENSE_SPEED_MULT :: real where "CPU_DEFENSE_SPEED_MULT = 0.65"

definition facingVec :: "player \<Rightarrow> vec2" where
  "facingVec p = \<lparr>vx = cos (facingRad p), vy = sin (facingRad p)\<rparr>"

definition pickKickDir :: "player \<Rightarrow> vec2 \<Rightarrow> vec2" where
  "pickKickDir p mv = (if V_lenSq mv > 0.04 then V_norm mv else V_norm (facingVec p))"

subsection \<open>Pass target\<close>

record cand =
  cp :: player
  cdist :: real
  cahead :: real
  clateral :: real

text \<open>\<open>a || b\<close> on numbers: the first operand unless it is zero.\<close>

definition orElse :: "real \<Rightarrow> real \<Rightarrow> real" where
  "orElse a b = (if a \<noteq> 0 then a else b)"

text \<open>\<open>Array.prototype.sort\<close> with a comparator: a stable sort; an element stays before
  the elements it does not compare greater than.\<close>

fun insortBy :: "('a \<Rightarrow> 'a \<Rightarrow> real) \<Rightarrow> 'a \<Rightarrow> 'a list \<Rightarrow> 'a list" where
  "insortBy cmp x [] = [x]"
| "insortBy cmp x (y # ys) = (if cmp x y \<le> 0 then x # y # ys else y # insortBy cmp x ys)"

definition sortBy :: "('a \<Rightarrow> 'a \<Rightarrow> real) \<Rightarrow> 'a list \<Rightarrow> 'a list" where
  "sortBy cmp xs = foldr (insortBy cmp) xs []"

definition cmpNear :: "cand \<Rightarrow> cand \<Rightarrow> real" where
  "cmpNear a b = orElse (clateral a - clateral b) (orElse (cahead a - cahead b) (cdist a - cdist b))"

definition cmpFar :: "cand \<Rightarrow> cand \<Rightarrow> real" where
  "cmpFar a b = orElse (clateral a - clateral b) (orElse (cahead b - cahead a) (cdist b - cdist a))"

text \<open>The candidate of a teammate, or \<open>None\<close> where the loop body continues.\<close>

definition passCand :: "player \<Rightarrow> vec2 \<Rightarrow> player \<Rightarrow> cand option" where
  "passCand kicker aim t =
     (if pid t = pid kicker then None
      else (let to = V_sub (pos t) (pos kicker); dist = V_len to in
        if dist < 3 then None
        else (let ahead = V_dot to aim;
                  cross = vx to * vy aim - vy to * vx aim;
                  lateral = \<bar>cross\<bar>
              in Some \<lparr>cp = t, cdist = dist, cahead = ahead, clateral = lateral\<rparr>)))"

definition passPool :: "cand list \<Rightarrow> cand list" where
  "passPool cands = (let forward = filter (\<lambda>c. cahead c > 1) cands in
                     if forward \<noteq> [] then forward else cands)"

definition passLaneBand :: "cand list \<Rightarrow> cand list" where
  "passLaneBand pool =
     (let bestLat = foldl minStep None (map clateral pool)
      in filter (\<lambda>c. case bestLat of None \<Rightarrow> True | Some bl \<Rightarrow> clateral c \<le> bl + 2.25) pool)"

definition pickBestPassTarget :: "matchState \<Rightarrow> string \<Rightarrow> player \<Rightarrow> vec2 \<Rightarrow> bool \<Rightarrow> player option" where
  "pickBestPassTarget m t kicker aimDir preferFar =
     (let teammates = getTeamPlayers m t;
          aim = V_norm aimDir
      in if V_lenSq aim < 1 / 10 ^ 6
         then map_option fst (nearest (\<lambda>x. pid x \<noteq> pid kicker) (\<lambda>x. V_distSq (pos x) (pos kicker)) teammates)
         else (let cands = List.map_filter (passCand kicker aim) teammates in
           if cands = [] then None
           else (let laneBand = passLaneBand (passPool cands) in
             case sortBy (if \<not> preferFar then cmpNear else cmpFar) laneBand of
               [] \<Rightarrow> None
             | c # _ \<Rightarrow> Some (cp c))))"

subsection \<open>Switch candidates\<close>

definition pickBestSwitchCandidate :: "matchState \<Rightarrow> string \<Rightarrow> string \<Rightarrow> string" where
  "pickBestSwitchCandidate m t currentId =
     (case nearest (\<lambda>p. role p \<noteq> GK) (\<lambda>p. V_distSq (pos p) (bpos (mball m))) (getTeamPlayers m t) of
        None \<Rightarrow> currentId
      | Some (p, d) \<Rightarrow> pid p)"

definition pickDefensiveSwitchCandidate :: "matchState \<Rightarrow> string \<Rightarrow> string \<Rightarrow> vec2 \<Rightarrow> string" where
  "pickDefensiveSwitchCandidate m t currentId aimDir =
     (let aim = V_norm aimDir in
      if V_lenSq aim < 1 / 10 ^ 6 then pickBestSwitchCandidate m t currentId
      else (let ballPos = bpos (mball m);
                bestId = (case nearest (\<lambda>p. role p \<noteq> GK
                                             \<and> \<not> V_dot (V_norm (V_sub (pos p) ballPos)) aim < 0.35)
                                  (\<lambda>p. V_distSq (pos p) ballPos) (getTeamPlayers m t) of
                            None \<Rightarrow> currentId
                          | Some (p, d) \<Rightarrow> pid p)
            in if bestId \<noteq> currentId then bestId
               else pickBestSwitchCandidate m t currentId))"

definition resolveScoreSide :: "matchState \<Rightarrow> string \<Rightarrow> matchState" where
  "resolveScoreSide m s =
     (if s = homeTeamId m then m\<lparr>mscore := (mscore m)\<lparr>home := home (mscore m) + 1\<rparr>\<rparr>
      else if s = awayTeamId m then m\<lparr>mscore := (mscore m)\<lparr>away := away (mscore m) + 1\<rparr>\<rparr>
      else m)"

subsection \<open>Ball bumping\<close>

definition pushStep :: "real \<Rightarrow> ball \<Rightarrow> player \<Rightarrow> ball" where
  "pushStep dt b p =
     (let dx = vx (bpos b) - vx (pos p);
          dy = vy (bpos b) - vy (pos p);
          dist = sqrt (dx * dx + dy * dy);
          minDist = PLAYER_RADIUS + radius b;
          overlap = minDist - dist
      in if overlap \<le> 0 then b
         else (let nx = (if dist > 1 / 10 ^ 6 then dx / dist else 1);
                   ny = (if dist > 1 / 10 ^ 6 then dy / dist else 0);
                   push = (overlap / max (1 / 10 ^ 4) dt) * 0.08
               in b\<lparr>bpos := \<lparr>vx = vx (bpos b) + nx * overlap, vy = vy (bpos b) + ny * overlap\<rparr>,
                     bvel := \<lparr>vx = vx (bvel b) + (nx * push + vx (vel p) * 0.35),
                              vy = vy (bvel b) + (ny * push + vy (vel p) * 0.35)\<rparr>,
                     lastTouchTeamId := Some (teamId p)\<rparr>))"

definition pushFreeBallByPlayers :: "matchState \<Rightarrow> engineConfig \<Rightarrow> real \<Rightarrow> matchState" where
  "pushFreeBallByPlayers m cfg dt =
     (if truthy (ownerPlayerId (mball m)) then m
      else m\<lparr>mball := bounceBallOffPitch cfg (foldl (pushStep dt) (mball m) (playersById m))\<rparr>)"

subsection \<open>Goalkeeper and dangerous shots\<close>

definition getTeamGoalkeeper :: "matchState \<Rightarrow> string \<Rightarrow> player option" where
  "getTeamGoalkeeper m t = find (\<lambda>p. role p = GK) (getTeamPlayers m t)"

definition isDangerousShotTowardGoal :: "matchState \<Rightarrow> engineConfig \<Rightarrow> string \<Rightarrow> bool" where
  "isDangerousShotTowardGoal m cfg t =
     (let b = mball m in
      if truthy (ownerPlayerId b) then False
      else (let halfW = pitchW cfg / 2;
                attackDirX = getAttackDirX m t;
                defendDirX = - attackDirX;
                toward = vx (bvel b) * defendDirX;
                speed = V_len (bvel b)
            in if toward < 9.5 then False
               else if speed < 10.5 then False
               else (let ownHalf = (if defendDirX = - 1 then vx (bpos b) < 0 else vx (bpos b) > 0) in
                 if \<not> ownHalf then False
                 else (let nearGoal = (\<bar>vx (bpos b)\<bar> > halfW * 0.18);
                           inChannel = (\<bar>vy (bpos b)\<bar> < goalHalfW cfg * 1.75)
                       in nearGoal \<and> inChannel))))"

subsection \<open>Movement of the players that the human does not steer\<close>

definition roleAnchorY :: "player \<Rightarrow> real" where
  "roleAnchorY p =
     (if role p = GK \<or> role p = MF then 0
      else (let s = (if vy (pos p) \<ge> 0 then 1 else - 1 :: real) in
            if role p = DF then s * 12 else s * 14))"

definition roleBaseXFrac :: "playerRole \<Rightarrow> real" where
  "roleBaseXFrac r = (if r = GK then 0.45 else if r = DF then 0.25 else if r = MF then 0.15 else 0.05)"

definition pickTeamBallChaserId :: "matchState \<Rightarrow> string \<Rightarrow> string option" where
  "pickTeamBallChaserId m t =
     map_option (\<lambda>r. pid (fst r))
       (nearest (\<lambda>p. role p \<noteq> GK) (\<lambda>p. V_distSq (pos p) (bpos (mball m))) (getTeamPlayers m t))"

definition npcTarget :: "matchState \<Rightarrow> engineConfig \<Rightarrow> player \<Rightarrow> string \<Rightarrow> bool \<Rightarrow> bool \<Rightarrow> bool \<Rightarrow> vec2" where
  "npcTarget m cfg p t teamHasPossession isBallOwner isChaser =
     (let halfW = pitchW cfg / 2;
          halfH = pitchH cfg / 2;
          attackDirX = getAttackDirX m t;
          ownGoalX = (if attackDirX = 1 then - halfW else halfW);
          oppGoalX = - ownGoalX;
          anchorY = roleAnchorY p;
          ballPos = bpos (mball m)
      in if role p = GK then
           (let x = ownGoalX + attackDirX * 4.0;
                farFromGoal = (\<bar>vx ballPos - ownGoalX\<bar> > pitchW cfg * 0.35);
                yTrack = clamp (vy ballPos) (- goalHalfW cfg * 0.9) (goalHalfW cfg * 0.9);
                y = (if farFromGoal then yTrack * 0.25 else yTrack)
            in \<lparr>vx = x, vy = y\<rparr>)
         else if isChaser \<and> \<not> teamHasPossession then \<lparr>vx = vx ballPos, vy = vy ballPos\<rparr>
         else if teamHasPossession then
           (if isBallOwner
            then \<lparr>vx = oppGoalX - attackDirX * 6,
                  vy = clamp (vy ballPos * 0.15) (- goalHalfW cfg * 1.1) (goalHalfW cfg * 1.1)\<rparr>
            else (let advance = (if role p = FW then 22 else if role p = MF then 14 else 7 :: real);
                      x0 = vx ballPos + attackDirX * advance;
                      x = (if role p = DF
                           then (if attackDirX = 1 then min x0 (vx ballPos - 4) else max x0 (vx ballPos + 4))
                           else x0);
                      y = clamp (anchorY * 0.75 + vy ballPos * 0.25) (- halfH + 4) (halfH - 4)
                  in \<lparr>vx = x, vy = y\<rparr>))
         else
           (let back = (if role p = DF then 16 else if role p = MF then 12 else 8 :: real);
                x0 = vx ballPos - attackDirX * back;
                x1 = (if attackDirX = 1 then min x0 (vx ballPos - 1) else max x0 (vx ballPos + 1));
                x = (if role p = DF then (if attackDirX = 1 then min x1 2 else max x1 (- 2)) else x1);
                ballFar = (V_distSq (pos p) ballPos > 28 * 28);
                yFollow = clamp (vy ballPos) (- halfH + 4) (halfH - 4);
                y = (if ballFar then clamp (anchorY * 0.9 + yFollow * 0.1) (- halfH + 4) (halfH - 4)
                     else clamp (anchorY * 0.65 + yFollow * 0.35) (- halfH + 4) (halfH - 4))
            in \<lparr>vx = x, vy = y\<rparr>))"

definition computeNpcDesiredVel :: "matchState \<Rightarrow> engineConfig \<Rightarrow> player \<Rightarrow> string \<Rightarrow> bool \<Rightarrow> bool \<Rightarrow> bool \<Rightarrow> vec2" where
  "computeNpcDesiredVel m cfg p t teamHasPossession isBallOwner isChaser =
     (let halfW = pitchW cfg / 2;
          halfH = pitchH cfg / 2;
          attackDirX = getAttackDirX m t;
          anchorX = - attackDirX * pitchW cfg * roleBaseXFrac (role p);
          anchorY = roleAnchorY p;
          target0 = npcTarget m cfg p t teamHasPossession isBallOwner isChaser;
          leashX = (if role p = GK then 6 else if role p = DF then 18 else if role p = MF then 28 else 36 :: real);
          leashY = (if role p = GK then 10 else if role p = DF then 16 else if role p = MF then 22 else 26 :: real);
          tx1 = clamp (vx target0) (anchorX - leashX) (anchorX + leashX);
          ty1 = clamp (vy target0) (anchorY - leashY) (anchorY + leashY);
          target = \<lparr>vx = clamp tx1 (- halfW + 4) (halfW - 4), vy = clamp ty1 (- halfH + 4) (halfH - 4)\<rparr>;
          to = V_sub target (pos p);
          d = V_len to
      in if d < 0.75 then \<lparr>vx = 0, vy = 0\<rparr>
         else (let baseSpeedMult = (if role p = GK then 0.62 else if role p = DF then 0.78
                                    else if role p = MF then 0.86 else 0.9 :: real);
                   speed = maxSpeed p * baseSpeedMult
               in V_mul (V_norm to) speed))"


subsection \<open>The step\<close>

text \<open>
  \<open>stepSim\<close> is one function in the source. The model keeps its order and splits it at
  the comment headings of the source. Below the clock (\<open>stepPlay\<close>): the cooldowns tick;
  \<open>switchPhase\<close> is the offense rule (\<open>followBallCarrier\<close>), the loose-ball auto-switch
  (\<open>autoSwitchLooseBall\<close>) and the human switch (\<open>humanSwitch\<close>); \<open>cpuPhase\<close> runs the
  opponent controller; \<open>moveControlled\<close> and \<open>moveNpcs\<close> move the players; \<open>stepOwnedBall\<close>
  is the branch of an owned ball (\<open>stealPhase\<close>, \<open>gkPossessionSwitch\<close>, \<open>kickPhase\<close> with
  \<open>humanKickActions\<close>, \<open>attachPhase\<close>); \<open>stepFreeBall\<close> is the free-ball physics and the
  possession upkeep; \<open>gainedAutoSwitch\<close> ends the tick. The target choice of
  \<open>computeNpcDesiredVel\<close> is \<open>npcTarget\<close>.

  Three locals of the source are computed at the top of the tick and used further down:
  \<open>prevOwnerTeamId\<close> and \<open>possessionTeamId\<close> (from the state after the cooldown ticks) and
  \<open>controlled\<close> (the controlled player after the offense rule, before the auto-switches).
  The model computes them from that state where they are used: \<open>prevOwnerTeamIdOf\<close>,
  \<open>possessionTeamIdOf\<close>, \<open>controlledRef\<close>. A local that holds a player object
  (\<open>currentOwner\<close>) is read through the store when its fields are used.
\<close>

definition anyInput :: "inputSnapshot \<Rightarrow> bool" where
  "anyInput inp = (V_lenSq (moveVec inp) > 0.01 \<or> sprint inp \<or> actionDown inp \<or> actionPressed inp
                    \<or> actionReleased inp \<or> shootDown inp \<or> shootReleased inp \<or> pausePressed inp)"

definition followBallCarrier :: "engineState \<Rightarrow> engineState" where
  "followBallCarrier e =
     (let m = match e in
      case lookupOwner (playersById m) (ownerPlayerId (mball m)) of
        None \<Rightarrow> e
      | Some ownerPre \<Rightarrow>
          if teamId ownerPre = humanTeamId m \<and> controlledPlayerId m \<noteq> pid ownerPre
          then e\<lparr>match := m\<lparr>controlledPlayerId := pid ownerPre\<rparr>,
                 actionChargeMs := 0, switchCooldownMs := 120\<rparr>
          else e)"

definition autoSwitchLooseBall :: "engineState \<Rightarrow> engineState" where
  "autoSwitchLooseBall e =
     (let m = match e; humanT = humanTeamId m in
      if \<not> truthy (ownerPlayerId (mball m)) \<and> switchCooldownMs e \<le> 0 then
        (let gk = getTeamGoalkeeper m humanT;
             shotIncoming = isDangerousShotTowardGoal m (config e) humanT
         in case (if shotIncoming then gk else None) of
              Some g \<Rightarrow>
                if controlledPlayerId m \<noteq> pid g
                then e\<lparr>match := m\<lparr>controlledPlayerId := pid g\<rparr>,
                       switchCooldownMs := 180, actionChargeMs := 0\<rparr>
                else e
            | None \<Rightarrow>
                (let nextId = pickBestSwitchCandidate m humanT (controlledPlayerId m);
                     cur = lookupP (playersById m) (controlledPlayerId m);
                     nxt = lookupP (playersById m) nextId;
                     closer = (case nxt of
                                 None \<Rightarrow> False
                               | Some n \<Rightarrow>
                                   (case cur of
                                      None \<Rightarrow> True
                                    | Some c \<Rightarrow>
                                        V_distSq (pos n) (bpos (mball m))
                                          + AUTO_SWITCH_HYSTERESIS * AUTO_SWITCH_HYSTERESIS
                                        < V_distSq (pos c) (bpos (mball m))))
                 in if nextId \<noteq> controlledPlayerId m \<and> closer
                    then e\<lparr>match := m\<lparr>controlledPlayerId := nextId\<rparr>,
                           switchCooldownMs := 180, actionChargeMs := 0\<rparr>
                    else e))
      else e)"

definition humanSwitch :: "engineState \<Rightarrow> inputSnapshot \<Rightarrow> bool \<Rightarrow> engineState" where
  "humanSwitch e inp controlledHasBall =
     (let m = match e in
      if actionPressed inp \<and> \<not> controlledHasBall \<and> switchCooldownMs e \<le> 0
      then e\<lparr>match := m\<lparr>controlledPlayerId :=
                           pickDefensiveSwitchCandidate m (humanTeamId m) (controlledPlayerId m) (moveVec inp)\<rparr>,
             switchCooldownMs := SWITCH_COOLDOWN_MS, actionChargeMs := 0\<rparr>
      else e)"

text \<open>\<open>controlled\<close> is the player that was controlled before the switches above ran.\<close>

definition moveControlled :: "engineState \<Rightarrow> inputSnapshot \<Rightarrow> real \<Rightarrow> player option \<Rightarrow> engineState" where
  "moveControlled e inp dt controlled =
     (let m = match e; humanDir = V_norm (moveVec inp) in
      case controlled of
        None \<Rightarrow> e
      | Some c \<Rightarrow>
          if teamId c = humanTeamId m
          then e\<lparr>match := m\<lparr>playersById := updP (pid c)
                   (\<lambda>q. (let speed = maxSpeed q * (if sprint inp then SPRINT_MULT else 1);
                              desired = V_mul humanDir speed
                          in containPlayerInPitch (config e) (integratePlayer q desired dt)))
                   (playersById m)\<rparr>\<rparr>
          else e)"

text \<open>One iteration of the loops over a team: \<open>skip\<close> is the controlled player's id for
  the human team, \<open>mult\<close> the CPU's defensive speed factor.\<close>

definition moveNpc :: "engineConfig \<Rightarrow> string \<Rightarrow> bool \<Rightarrow> string option \<Rightarrow> string option \<Rightarrow> string option \<Rightarrow> real option \<Rightarrow> real \<Rightarrow> matchState \<Rightarrow> string \<Rightarrow> matchState" where
  "moveNpc cfg t teamHasPossession ownerId chaserId skip mult dt m i =
     m\<lparr>playersById := updP i
        (\<lambda>p. if Some (pid p) = skip then p
              else (let desired0 = computeNpcDesiredVel m cfg p t teamHasPossession
                                     (ownerId = Some (pid p))
                                     (\<not> teamHasPossession \<and> Some (pid p) = chaserId);
                        desired = (case mult of None \<Rightarrow> desired0 | Some k \<Rightarrow> V_mul desired0 k)
                    in containPlayerInPitch cfg (integratePlayer p desired dt)))
        (playersById m)\<rparr>"

definition moveTeamNpcs :: "engineConfig \<Rightarrow> string \<Rightarrow> bool \<Rightarrow> string option \<Rightarrow> string option \<Rightarrow> string option \<Rightarrow> real option \<Rightarrow> real \<Rightarrow> matchState \<Rightarrow> matchState" where
  "moveTeamNpcs cfg t teamHasPossession ownerId chaserId skip mult dt m =
     foldl (moveNpc cfg t teamHasPossession ownerId chaserId skip mult dt) m (teamPlayerIds m t)"

definition chargeStep :: "bool \<Rightarrow> bool \<Rightarrow> real \<Rightarrow> real \<Rightarrow> real \<Rightarrow> real" where
  "chargeStep down released full charge dtMs =
     (if down then min full (charge + dtMs) else if \<not> released then 0 else charge)"

text \<open>Tap or hold: \<open>engine.actionChargeMs > ACTION_TAP_THRESHOLD_MS\<close>.\<close>

definition passPreferFar :: "real \<Rightarrow> bool" where
  "passPreferFar actionCharge = (actionCharge > ACTION_TAP_THRESHOLD_MS)"

definition humanKickActions :: "engineState \<Rightarrow> inputSnapshot \<Rightarrow> real \<Rightarrow> player \<Rightarrow> engineState" where
  "humanKickActions e inp dtMs currentOwner =
     (let m = match e;
          aimDir = pickKickDir currentOwner (moveVec inp);
          shootCharge = chargeStep (shootDown inp) (shootReleased inp) SHOOT_CHARGE_FULL_MS (shootChargeMs e) dtMs;
          actionCharge = chargeStep (actionDown inp) (actionReleased inp) ACTION_CHARGE_FULL_MS (actionChargeMs e) dtMs;
          e1 = e\<lparr>shootChargeMs := shootCharge, actionChargeMs := actionCharge\<rparr>
      in if actionReleased inp then
           (let preferFar = passPreferFar actionCharge;
                target = pickBestPassTarget m (humanTeamId m) currentOwner aimDir preferFar;
                dir = (case target of Some t \<Rightarrow> V_norm (V_sub (pos t) (pos currentOwner))
                                    | None \<Rightarrow> V_norm aimDir);
                dist = (case target of Some t \<Rightarrow> V_len (V_sub (pos t) (pos currentOwner)) | None \<Rightarrow> 18);
                distFactor = clamp (dist / 46) 0 1;
                t = clamp (actionCharge / ACTION_CHARGE_FULL_MS) 0 1;
                chargeFactor = (if preferFar then t else 0.25)
            in e1\<lparr>match := releaseBallWithKick m currentOwner dir
                              (kickPower currentOwner * (0.78 + 0.62 * chargeFactor) * (0.86 + 0.22 * distFactor)),
                   actionChargeMs := 0, shootChargeMs := 0\<rparr>)
         else if shootReleased inp then
           (let t = clamp (shootCharge / SHOOT_CHARGE_FULL_MS) 0 1
            in e1\<lparr>match := releaseBallWithKick m currentOwner aimDir (kickPower currentOwner * (1.05 + 0.75 * t)),
                   shootChargeMs := 0, actionChargeMs := 0\<rparr>)
         else e1)"

definition stealPhase :: "engineState \<Rightarrow> engineState" where
  "stealPhase e =
     (if stealCooldownMs e \<le> 0
      then (case tryStealOwnedBallByBallContact (match e) of
              (m1, Some s) \<Rightarrow> e\<lparr>match := m1, shootChargeMs := 0, actionChargeMs := 0, stealCooldownMs := 650\<rparr>
            | (m1, None) \<Rightarrow> e\<lparr>match := m1\<rparr>)
      else e)"

definition gkPossessionSwitch :: "engineState \<Rightarrow> engineState" where
  "gkPossessionSwitch e =
     (let m = match e in
      case lookupOwner (playersById m) (ownerPlayerId (mball m)) of
        Some co \<Rightarrow>
          if teamId co = humanTeamId m \<and> role co = GK \<and> controlledPlayerId m \<noteq> pid co
          then e\<lparr>match := m\<lparr>controlledPlayerId := pid co\<rparr>,
                 switchCooldownMs := 180, actionChargeMs := 0\<rparr>
          else e
      | None \<Rightarrow> e)"

definition kickPhase :: "engineState \<Rightarrow> inputSnapshot \<Rightarrow> real \<Rightarrow> engineState" where
  "kickPhase e inp dtMs =
     (let m = match e in
      case lookupOwner (playersById m) (ownerPlayerId (mball m)) of
        Some co \<Rightarrow>
          if teamId co = humanTeamId m \<and> pid co = controlledPlayerId m
          then humanKickActions e inp dtMs co
          else e\<lparr>actionChargeMs := 0\<rparr>
      | None \<Rightarrow> e\<lparr>actionChargeMs := 0\<rparr>)"

definition attachPhase :: "engineState \<Rightarrow> engineState" where
  "attachPhase e =
     (let m = match e in
      case lookupOwner (playersById m) (ownerPlayerId (mball m)) of
        Some co \<Rightarrow> e\<lparr>match := m\<lparr>mball := attachBallToOwner (mball m) co\<rparr>\<rparr>
      | None \<Rightarrow> e)"

definition stepOwnedBall :: "engineState \<Rightarrow> inputSnapshot \<Rightarrow> real \<Rightarrow> engineState" where
  "stepOwnedBall e inp dtMs =
     (let m = match e in
      if \<not> truthy (ownerPlayerId (mball m)) then e
      else case lookupOwner (playersById m) (ownerPlayerId (mball m)) of
        None \<Rightarrow> e\<lparr>match := m\<lparr>mball := (mball m)\<lparr>ownerPlayerId := None\<rparr>\<rparr>\<rparr>
      | Some owner \<Rightarrow> attachPhase (kickPhase (gkPossessionSwitch (stealPhase e)) inp dtMs))"

text \<open>The free-ball part returns the goal event when a goal ends the tick.\<close>

definition stepFreeBall :: "engineState \<Rightarrow> real \<Rightarrow> exn + (engineState \<times> engineEvent option)" where
  "stepFreeBall e dt =
     (let m = match e in
      if \<not> truthy (ownerPlayerId (mball m)) then
        (let (b1, goal) = integrateFreeBall m (config e) (mball m) dt;
             m1 = m\<lparr>mball := b1\<rparr>
         in case (if scored goal \<and> truthy (scoringTeamId goal) then scoringTeamId goal else None) of
              Some scorer \<Rightarrow>
                (let m2 = (resolveScoreSide m1 scorer)\<lparr>lastEventText := Some ''GOAL!''\<rparr>;
                     e2 = e\<lparr>celebrationMs := 1400, kickoffHoldMs := 650, kickoffAwaitInput := False\<rparr>;
                     ev = GOAL scorer (mscore m2) ''GOAL!''
                 in case resetToKickoff (config e) m2 of
                      Inl x \<Rightarrow> Inl x
                    | Inr m3 \<Rightarrow> Inr (e2\<lparr>match := m3\<rparr>, Some ev))
            | None \<Rightarrow>
                (let m2 = pushFreeBallByPlayers m1 (config e) dt;
                     m3 = fst (tryImmediateBallPickup m2);
                     m4 = (if \<not> truthy (ownerPlayerId (mball m3))
                           then (let (mc, poss) = tryClaimBall m3;
                                     mp = mc\<lparr>mpossession := poss\<rparr>
                                 in if truthy (possPlayerId poss)
                                    then mp\<lparr>mball := (mball mp)\<lparr>ownerPlayerId := possPlayerId poss\<rparr>\<rparr>
                                    else mp)
                           else m3)
                 in Inr (e\<lparr>match := m4\<rparr>, None)))
      else (case lookupOwner (playersById m) (ownerPlayerId (mball m)) of
              Some owner \<Rightarrow>
                Inr (e\<lparr>match := m\<lparr>mpossession := \<lparr>possTeamId = Some (teamId owner),
                                                    possPlayerId = Some (pid owner)\<rparr>\<rparr>\<rparr>, None)
            | None \<Rightarrow> Inr (e, None)))"

definition gainedAutoSwitch :: "engineState \<Rightarrow> string option \<Rightarrow> engineState" where
  "gainedAutoSwitch e prevOwnerTeamId =
     (let m = match e in
      case lookupOwner (playersById m) (ownerPlayerId (mball m)) of
        None \<Rightarrow> e
      | Some newOwner \<Rightarrow>
          (let gained = (teamId newOwner = humanTeamId m \<and> prevOwnerTeamId \<noteq> Some (humanTeamId m))
           in if gained \<and> controlledPlayerId m \<noteq> pid newOwner
              then e\<lparr>match := m\<lparr>controlledPlayerId := pid newOwner\<rparr>,
                     switchCooldownMs := 220, actionChargeMs := 0\<rparr>
              else e))"

definition prevOwnerTeamIdOf :: "matchState \<Rightarrow> string option" where
  "prevOwnerTeamIdOf m = map_option teamId (lookupOwner (playersById m) (ownerPlayerId (mball m)))"

definition possessionTeamIdOf :: "matchState \<Rightarrow> string option" where
  "possessionTeamIdOf m = (case possTeamId (mpossession m) of
                             Some t \<Rightarrow> Some t | None \<Rightarrow> lastTouchTeamId (mball m))"

definition controlledRef :: "engineState \<Rightarrow> player option" where
  "controlledRef e1 = (let m2 = match (followBallCarrier e1) in lookupP (playersById m2) (controlledPlayerId m2))"

definition switchPhase :: "engineState \<Rightarrow> inputSnapshot \<Rightarrow> engineState" where
  "switchPhase e1 inp =
     (let e2 = followBallCarrier e1;
          controlledHasBall = (case controlledRef e1 of
                                 None \<Rightarrow> False
                               | Some c \<Rightarrow> ownerPlayerId (mball (match e2)) = Some (pid c))
      in humanSwitch (autoSwitchLooseBall e2) inp controlledHasBall)"

definition cpuPhase :: "engineState \<Rightarrow> real \<Rightarrow> randoms \<Rightarrow> engineState" where
  "cpuPhase e dtMs rnd =
     (case stepCpuAi (config e) (match e) dtMs (cpuAi e) rnd of
        (m5, ai5) \<Rightarrow> e\<lparr>match := m5, cpuAi := ai5\<rparr>)"

definition moveNpcs :: "engineState \<Rightarrow> string option \<Rightarrow> real \<Rightarrow> engineState" where
  "moveNpcs e6 possessionTeamId dt =
     (let m6 = match e6;
          cpuT = awayTeamId m6;
          humanT = humanTeamId m6;
          ownerId = map_option pid (lookupOwner (playersById m6) (ownerPlayerId (mball m6)));
          humanChaserId = pickTeamBallChaserId m6 humanT;
          cpuChaserId = pickTeamBallChaserId m6 cpuT;
          humanHasPossession = (possessionTeamId = Some humanT);
          m7 = moveTeamNpcs (config e6) humanT humanHasPossession ownerId humanChaserId
                 (Some (controlledPlayerId m6)) None dt m6;
          cpuHasPossession = (possessionTeamId = Some cpuT);
          m8 = moveTeamNpcs (config e6) cpuT cpuHasPossession ownerId cpuChaserId None
                 (if \<not> cpuHasPossession then Some CPU_DEFENSE_SPEED_MULT else None) dt m7
      in e6\<lparr>match := m8\<rparr>)"

definition kickCountdown :: "engineState \<Rightarrow> real \<Rightarrow> engineState" where
  "kickCountdown e dtMs =
     e\<lparr>match := (match e)\<lparr>mball := (mball (match e))
        \<lparr>kickNoPickupMs := max 0 (kickNoPickupMs (mball (match e)) - dtMs)\<rparr>\<rparr>\<rparr>"

definition stepPlay :: "engineState \<Rightarrow> inputSnapshot \<Rightarrow> real \<Rightarrow> randoms \<Rightarrow> exn + (engineState \<times> engineEvent list)" where
  "stepPlay e0 inp dtMs rnd =
     (let dt = dtMs / 1000;
          e1 = e0\<lparr>switchCooldownMs := max 0 (switchCooldownMs e0 - dtMs),
                   stealCooldownMs := max 0 (stealCooldownMs e0 - dtMs)\<rparr>;
          e4 = switchPhase e1 inp;
          e5 = cpuPhase e4 dtMs rnd;
          e6 = moveControlled e5 inp dt (controlledRef e1);
          e8 = moveNpcs e6 (possessionTeamIdOf (match e1)) dt;
          e9 = kickCountdown e8 dtMs;
          e10 = stepOwnedBall e9 inp dtMs
      in case stepFreeBall e10 dt of
           Inl x \<Rightarrow> Inl x
         | Inr (e11, Some ev) \<Rightarrow> Inr (e11, [ev])
         | Inr (e11, None) \<Rightarrow> Inr (gainedAutoSwitch e11 (prevOwnerTeamIdOf (match e1)), []))"

definition stepSim :: "engineState \<Rightarrow> inputSnapshot \<Rightarrow> real \<Rightarrow> randoms \<Rightarrow> exn + (engineState \<times> engineEvent list)" where
  "stepSim engine inp dtMs rnd =
     (if phase (clock (match engine)) = FULL_TIME then Inr (engine, [])
      else (let e1 = engine\<lparr>celebrationMs := max 0 (celebrationMs engine - dtMs)\<rparr> in
        if kickoffHoldMs e1 > 0 then
          (let e2 = e1\<lparr>kickoffHoldMs := max 0 (kickoffHoldMs e1 - dtMs)\<rparr>
           in Inr (if kickoffHoldMs e2 \<le> 0 then e2\<lparr>kickoffAwaitInput := True\<rparr> else e2, []))
        else if kickoffAwaitInput e1 then
          Inr (if anyInput inp
               then e1\<lparr>kickoffAwaitInput := False, match := (match e1)\<lparr>lastEventText := None\<rparr>\<rparr>
               else e1, [])
        else (let m = match e1;
                  elapsed = min (msTotal (clock m)) (msElapsed (clock m) + dtMs);
                  e2 = e1\<lparr>match := m\<lparr>clock := (clock m)\<lparr>msElapsed := elapsed\<rparr>\<rparr>\<rparr>
              in if elapsed \<ge> msTotal (clock m)
                 then Inr (e2\<lparr>match := (match e2)\<lparr>clock := (clock (match e2))\<lparr>phase := FULL_TIME\<rparr>,
                                                   lastEventText := Some ''FULL TIME''\<rparr>\<rparr>,
                           [FULL_TIME_EVENT (mscore (match e2)) ''FULL TIME''])
                 else stepPlay e2 inp dtMs rnd)))"

text \<open>The engine as \<open>createEngine\<close> builds it: the match after \<open>resetToKickoff\<close>, every
  timer at zero. The jitter phase of the opponent controller starts at a random value.\<close>

definition createEngine :: "(string \<times> string) option \<Rightarrow> real \<Rightarrow> exn + engineState" where
  "createEngine setup rndPhase =
     (case resetToKickoff DEFAULT_ENGINE_CONFIG (createMatch DEFAULT_ENGINE_CONFIG setup) of
        Inl x \<Rightarrow> Inl x
      | Inr m \<Rightarrow>
          Inr \<lparr>config = DEFAULT_ENGINE_CONFIG, match = m, paused = False,
               kickoffHoldMs = 0, kickoffAwaitInput = False, uiMsAcc = 0, celebrationMs = 0,
               switchCooldownMs = 0, stealCooldownMs = 0, shootChargeMs = 0, actionChargeMs = 0,
               cpuAi = \<lparr>shootCooldownMs = 0, dribbleJitterPhase = rndPhase * pi * 2,
                         chaserPlayerId = None\<rparr>\<rparr>)"


section \<open>Well-formed states and invariants\<close>

text \<open>
  A well-formed match is one that \<open>createMatch\<close> can have built: player ids are distinct
  and not empty, every reference held by a team resolves to a player of that team, the
  home, away and human teams exist, the human team has a player, and the human team is
  not the team that the opponent controller plays.
\<close>

definition wfPlayers :: "player list \<Rightarrow> bool" where
  "wfPlayers ps = (distinct (map pid ps) \<and> (\<forall>p\<in>set ps. pid p \<noteq> []))"

definition wfMatch :: "matchState \<Rightarrow> bool" where
  "wfMatch m =
     (wfPlayers (playersById m)
      \<and> (\<forall>t\<in>set (teamsById m). \<forall>i\<in>set (players t). \<exists>p\<in>set (playersById m). pid p = i \<and> teamId p = tid t)
      \<and> lookupT (teamsById m) (homeTeamId m) \<noteq> None
      \<and> lookupT (teamsById m) (awayTeamId m) \<noteq> None
      \<and> (case lookupT (teamsById m) (humanTeamId m) of None \<Rightarrow> False | Some t \<Rightarrow> players t \<noteq> [])
      \<and> humanTeamId m \<noteq> awayTeamId m)"

text \<open>Ownership: a free ball and nobody flagged, or an owner who exists and is the one
  flagged player.\<close>

definition ownershipOk :: "matchState \<Rightarrow> bool" where
  "ownershipOk m =
     (case ownerPlayerId (mball m) of
        None \<Rightarrow> (\<forall>p\<in>set (playersById m). \<not> hasBall p)
      | Some i \<Rightarrow> (\<exists>p\<in>set (playersById m). pid p = i)
                  \<and> (\<forall>p\<in>set (playersById m). hasBall p \<longleftrightarrow> pid p = i))"

text \<open>The controlled player exists and plays for the human team.\<close>

definition controlledOk :: "matchState \<Rightarrow> bool" where
  "controlledOk m =
     (case lookupP (playersById m) (controlledPlayerId m) of
        None \<Rightarrow> False
      | Some p \<Rightarrow> teamId p = humanTeamId m)"

text \<open>A charge counter is non-zero only while the controlled human player owns the ball.\<close>

definition controlledOwner :: "matchState \<Rightarrow> bool" where
  "controlledOwner m =
     (case lookupOwner (playersById m) (ownerPlayerId (mball m)) of
        None \<Rightarrow> False
      | Some p \<Rightarrow> teamId p = humanTeamId m \<and> pid p = controlledPlayerId m)"

definition chargeInv :: "engineState \<Rightarrow> bool" where
  "chargeInv e = ((shootChargeMs e = 0 \<and> actionChargeMs e = 0) \<or> controlledOwner (match e))"

definition engineInv :: "engineState \<Rightarrow> bool" where
  "engineInv e = (wfMatch (match e) \<and> ownershipOk (match e) \<and> controlledOk (match e) \<and> chargeInv e)"

text \<open>What of a player the rules of possession and control look at, and what of a
  state: the positions, velocities and facings are left out.\<close>

definition pkey :: "player \<Rightarrow> string \<times> string \<times> playerRole \<times> bool" where
  "pkey p = (pid p, teamId p, role p, hasBall p)"

definition matchFrame :: "matchState \<Rightarrow> (string \<times> string \<times> playerRole \<times> bool) list \<times> string option \<times> team list \<times> string \<times> string \<times> string \<times> string" where
  "matchFrame m = (map pkey (playersById m), ownerPlayerId (mball m), teamsById m,
                   homeTeamId m, awayTeamId m, humanTeamId m, controlledPlayerId m)"

text \<open>The charge counters carry nothing over from before: each is zero or the given
  fresh value; or else the owner and the controlled player are those of the state \<open>e0\<close>.\<close>

definition chargesFresh :: "real \<Rightarrow> real \<Rightarrow> engineState \<Rightarrow> bool" where
  "chargesFresh fs fa e = ((shootChargeMs e = 0 \<or> shootChargeMs e = fs)
                          \<and> (actionChargeMs e = 0 \<or> actionChargeMs e = fa))"

definition sameOwnerAndControl :: "engineState \<Rightarrow> engineState \<Rightarrow> bool" where
  "sameOwnerAndControl e0 e =
     (ownerPlayerId (mball (match e)) = ownerPlayerId (mball (match e0))
      \<and> controlledPlayerId (match e) = controlledPlayerId (match e0))"

definition chargeCarry :: "real \<Rightarrow> real \<Rightarrow> engineState \<Rightarrow> engineState \<Rightarrow> bool" where
  "chargeCarry fs fa e0 e = (chargesFresh fs fa e \<or> sameOwnerAndControl e0 e)"

definition isFullTime :: "engineEvent \<Rightarrow> bool" where
  "isFullTime ev = (case ev of FULL_TIME_EVENT s t \<Rightarrow> True | GOAL a b c \<Rightarrow> False)"

text \<open>A run of the engine: the host calls the step once per tick and collects the
  events.\<close>

fun runSim :: "engineState \<Rightarrow> (inputSnapshot \<times> real \<times> randoms) list \<Rightarrow> exn + (engineState \<times> engineEvent list)" where
  "runSim e [] = Inr (e, [])"
| "runSim e ((inp, dtMs, rnd) # ticks) =
     (case stepSim e inp dtMs rnd of
        Inl x \<Rightarrow> Inl x
      | Inr (e1, evs) \<Rightarrow>
          (case runSim e1 ticks of
             Inl x \<Rightarrow> Inl x
           | Inr (e2, evs2) \<Rightarrow> Inr (e2, evs @ evs2)))"


section \<open>Concrete states\<close>

definition initialMatch :: matchState where
  "initialMatch = createMatch DEFAULT_ENGINE_CONFIG None"

text \<open>A ball two units behind the left goal line, in front of the goal mouth.\<close>

definition ballBehindLeftLine :: ball where
  "ballBehindLeftLine = (mball initialMatch)\<lparr>bpos := \<lparr>vx = - 62, vy = 0\<rparr>, bvel := \<lparr>vx = - 5, vy = 0\<rparr>\<rparr>"

text \<open>The home midfielder running towards his own goal at 20 units per second, and the
  same player standing still.\<close>

definition midfielderRunningBack :: player where
  "midfielderRunningBack =
     (makePlayer (pId ''kilo'' ''3'') ''Kilo MF'' MF ''kilo'' \<lparr>vx = 0, vy = 0\<rparr> 18 75 30)
       \<lparr>vel := \<lparr>vx = - 20, vy = 0\<rparr>, hasBall := True\<rparr>"

definition midfielderAtRest :: player where
  "midfielderAtRest = midfielderRunningBack\<lparr>vel := \<lparr>vx = 0, vy = 0\<rparr>\<rparr>"

text \<open>The midfielder stands on the ball and owns it; everybody else is where
  \<open>createMatch\<close> put them.\<close>

definition matchMidfielderOnBall :: matchState where
  "matchMidfielderOnBall =
     initialMatch\<lparr>playersById := updP (pId ''kilo'' ''3'') (\<lambda>p. midfielderAtRest) (playersById initialMatch),
                  mball := (mball initialMatch)\<lparr>ownerPlayerId := Some (pId ''kilo'' ''3'')\<rparr>\<rparr>"

text \<open>The CPU midfielder dribbles the ball; the home midfielder runs into the ball at 20.\<close>

definition tackler :: player where
  "tackler = (makePlayer (pId ''kilo'' ''3'') ''Kilo MF'' MF ''kilo'' \<lparr>vx = - 2, vy = 0\<rparr> 18 75 30)
               \<lparr>vel := \<lparr>vx = 20, vy = 0\<rparr>\<rparr>"

definition dribbler :: player where
  "dribbler = (makePlayer (pId ''cpu'' ''3'') ''CPU MF'' MF ''cpu'' \<lparr>vx = 3.02, vy = 0\<rparr> 18 75 30)
               \<lparr>facingRad := pi, hasBall := True\<rparr>"

definition tackleMatch :: matchState where
  "tackleMatch =
     initialMatch\<lparr>playersById := updP (pId ''cpu'' ''3'') (\<lambda>p. dribbler)
                                   (updP (pId ''kilo'' ''3'') (\<lambda>p. tackler) (playersById initialMatch)),
                  mball := (mball initialMatch)\<lparr>ownerPlayerId := Some (pId ''cpu'' ''3''),
                                                lastTouchTeamId := Some ''cpu''\<rparr>,
                  mpossession := \<lparr>possTeamId = Some ''cpu'', possPlayerId = Some (pId ''cpu'' ''3'')\<rparr>\<rparr>"

definition immuneTackleMatch :: matchState where
  "immuneTackleMatch =
     tackleMatch\<lparr>mball := (mball tackleMatch)\<lparr>lastKickPlayerId := Some (pId ''kilo'' ''3''),
                                               kickNoPickupMs := 150\<rparr>\<rparr>"

text \<open>The home team lined up on the x axis: the midfielder has the ball at the centre
  spot, the forwards stand 10 and 30 units ahead of him, the defender and the
  goalkeeper behind.\<close>

definition passer :: player where
  "passer = (makePlayer (pId ''kilo'' ''3'') ''Kilo MF'' MF ''kilo'' \<lparr>vx = 0, vy = 0\<rparr> 18 75 30)
              \<lparr>hasBall := True\<rparr>"

definition nearMate :: player where
  "nearMate = makePlayer (pId ''kilo'' ''4'') ''Kilo FW1'' FW ''kilo'' \<lparr>vx = 10, vy = 0\<rparr> 20 85 32"

definition farMate :: player where
  "farMate = makePlayer (pId ''kilo'' ''5'') ''Kilo FW2'' FW ''kilo'' \<lparr>vx = 30, vy = 0\<rparr> 20 85 32"

definition passTeam :: "player list" where
  "passTeam =
     [makePlayer (pId ''kilo'' ''1'') ''Kilo GK'' GK ''kilo'' \<lparr>vx = - 54, vy = 0\<rparr> 14 60 26,
      makePlayer (pId ''kilo'' ''2'') ''Kilo DF'' DF ''kilo'' \<lparr>vx = - 30, vy = 0\<rparr> 16 70 28,
      passer, nearMate, farMate]"

definition passMatch :: matchState where
  "passMatch =
     initialMatch\<lparr>playersById := passTeam @ awayPlayers DEFAULT_ENGINE_CONFIG ''cpu'' ''CPU'',
                  mball := (mball initialMatch)\<lparr>ownerPlayerId := Some (pId ''kilo'' ''3''),
                                                lastTouchTeamId := Some ''kilo''\<rparr>,
                  mpossession := \<lparr>possTeamId = Some ''kilo'', possPlayerId = Some (pId ''kilo'' ''3'')\<rparr>\<rparr>"

text \<open>The same line-up with the far forward one unit off the axis.\<close>

definition farMateOffAxis :: player where
  "farMateOffAxis = makePlayer (pId ''kilo'' ''5'') ''Kilo FW2'' FW ''kilo'' \<lparr>vx = 30, vy = 1\<rparr> 20 85 32"

definition passMatchOffAxis :: matchState where
  "passMatchOffAxis =
     passMatch\<lparr>playersById := updP (pId ''kilo'' ''5'') (\<lambda>p. farMateOffAxis) (playersById passMatch)\<rparr>"

text \<open>A pass candidate written out.\<close>

definition candOf :: "player \<Rightarrow> real \<Rightarrow> real \<Rightarrow> real \<Rightarrow> cand" where
  "candOf p d a l = \<lparr>cp = p, cdist = d, cahead = a, clateral = l\<rparr>"




section \<open>Auxiliary facts\<close>

subsection \<open>Nearest-player search\<close>

lemma foldl_nearestStep_sound:
  "foldl (nearestStep ok d2) acc ps = Some (p, d) \<Longrightarrow>
     acc = Some (p, d) \<or> (p \<in> set ps \<and> ok p \<and> d = d2 p)"
proof (induction ps arbitrary: acc)
  case Nil
  then show ?case by simp
next
  case (Cons a ps)
  from Cons.IH[of "nearestStep ok d2 acc a"] Cons.prems
  show ?case
    by (auto simp: nearestStep_def split: if_splits option.splits prod.splits)
qed

lemma foldl_nearestStep_least:
  "foldl (nearestStep ok d2) acc ps = Some (p, d) \<Longrightarrow>
     (\<forall>q\<in>set ps. ok q \<longrightarrow> d \<le> d2 q) \<and> (\<forall>ap ad. acc = Some (ap, ad) \<longrightarrow> d \<le> ad)"
proof (induction ps arbitrary: acc)
  case Nil
  then show ?case by simp
next
  case (Cons a ps)
  from Cons.IH[of "nearestStep ok d2 acc a"] Cons.prems
  have ih: "(\<forall>q\<in>set ps. ok q \<longrightarrow> d \<le> d2 q)"
    and ih2: "\<forall>ap ad. nearestStep ok d2 acc a = Some (ap, ad) \<longrightarrow> d \<le> ad"
    by auto
  from ih2 have "ok a \<longrightarrow> d \<le> d2 a"
    by (cases acc) (auto simp: nearestStep_def split: if_splits prod.splits)
  moreover from ih2 have "\<forall>ap ad. acc = Some (ap, ad) \<longrightarrow> d \<le> ad"
    by (auto simp: nearestStep_def split: if_splits prod.splits)
  ultimately show ?case using ih by auto
qed

lemma foldl_nearestStep_None:
  "foldl (nearestStep ok d2) acc ps = None \<longleftrightarrow> acc = None \<and> (\<forall>q\<in>set ps. \<not> ok q)"
  by (induction ps arbitrary: acc) (auto simp: nearestStep_def split: if_splits option.splits prod.splits)

lemma nearest_Some:
  "nearest ok d2 ps = Some (p, d) \<Longrightarrow>
     p \<in> set ps \<and> ok p \<and> d = d2 p \<and> (\<forall>q\<in>set ps. ok q \<longrightarrow> d2 p \<le> d2 q)"
  unfolding nearest_def
  using foldl_nearestStep_sound[of ok d2 None ps p d] foldl_nearestStep_least[of ok d2 None ps p d]
  by auto

lemma nearest_None: "nearest ok d2 ps = None \<longleftrightarrow> (\<forall>q\<in>set ps. \<not> ok q)"
  unfolding nearest_def by (simp add: foldl_nearestStep_None)

subsection \<open>Vectors\<close>

lemma V_norm_unit: "V_len a > 1 / 10 ^ 9 \<Longrightarrow> V_lenSq (V_norm a) = 1"
proof -
  assume h: "V_len a > 1 / 10 ^ 9"
  then have pos: "V_len a > 0"
    by (smt (verit) zero_less_divide_1_iff zero_less_numeral zero_less_power)
  have sq: "V_len a * V_len a = V_lenSq a"
    unfolding V_len_def by (simp add: V_lenSq_def)
  have "V_lenSq (V_norm a) = (vx a * vx a + vy a * vy a) / (V_len a * V_len a)"
    using h pos by (simp add: V_norm_def Let_def V_lenSq_def add_divide_distrib)
  also have "\<dots> = V_lenSq a / V_lenSq a" by (simp only: sq V_lenSq_def)
  also have "\<dots> = 1" using sq pos by (metis divide_self_if mult_eq_0_iff less_irrefl)
  finally show ?thesis .
qed

lemma kick_speed_bound:
  assumes u: "V_lenSq d = 1" and k: "0 \<le> k" and dp: "0 \<le> V_dot v d"
  shows "k \<le> V_len \<lparr>vx = vx d * k + vx v * 0.35, vy = vy d * k + vy v * 0.35\<rparr>"
proof -
  let ?w = "\<lparr>vx = vx d * k + vx v * 0.35, vy = vy d * k + vy v * 0.35\<rparr>"
  have "V_lenSq ?w = k * k * V_lenSq d + 2 * 0.35 * k * V_dot v d + 0.35 * 0.35 * V_lenSq v"
    by (simp add: V_lenSq_def V_dot_def field_simps)
  moreover have "0 \<le> V_lenSq v" by (simp add: V_lenSq_def)
  moreover have "0 \<le> 2 * 0.35 * k * V_dot v d" using k dp by simp
  ultimately have "k * k \<le> V_lenSq ?w" using u by simp
  then have "sqrt (k * k) \<le> sqrt (V_lenSq ?w)" by (rule real_sqrt_le_mono)
  then show ?thesis using k by (simp add: V_len_def)
qed

subsection \<open>Kick immunity\<close>

lemma kickImmune_lastKicker:
  "0 < kickNoPickupMs b \<Longrightarrow> lastKickPlayerId b = Some k \<Longrightarrow> k \<noteq> [] \<Longrightarrow> kickImmune b p \<longleftrightarrow> pid p = k"
  by (auto simp: kickImmune_def truthy_def)

lemma players_initialMatch:
  "playersById initialMatch = homePlayers DEFAULT_ENGINE_CONFIG @ awayPlayers DEFAULT_ENGINE_CONFIG ''cpu'' ''CPU''"
  by (simp add: initialMatch_def createMatch_def Let_def)

subsection \<open>Steal rule\<close>

lemma V_len_axis_x: "V_len \<lparr>vx = a, vy = 0\<rparr> = \<bar>a\<bar>"
  by (simp add: V_len_def V_lenSq_def)

lemma V_norm_axis_x: "a > 1 / 10 ^ 9 \<Longrightarrow> V_norm \<lparr>vx = a, vy = 0\<rparr> = \<lparr>vx = 1, vy = 0\<rparr>"
  by (simp add: V_norm_def V_len_axis_x Let_def)

lemma stealApproach_still: "vel p = \<lparr>vx = 0, vy = 0\<rparr> \<Longrightarrow> stealApproach b p = 0"
  by (simp add: stealApproach_def V_dot_def)

lemma not_candidate_still: "vel p = \<lparr>vx = 0, vy = 0\<rparr> \<Longrightarrow> \<not> stealCandidate b owner p"
  by (simp add: stealCandidate_def stealApproach_still STEAL_APPROACH_SPEED_MIN_def)

lemma trySteal_cases:
  "tryStealOwnedBallByBallContact m = (m', r) \<Longrightarrow>
     (r = None \<and> m' = m) \<or>
     (\<exists>owner p. r = Some p \<and> truthy (ownerPlayerId (mball m))
        \<and> lookupOwner (playersById m) (ownerPlayerId (mball m)) = Some owner
        \<and> p \<in> set (playersById m) \<and> stealCandidate (mball m) owner p
        \<and> (\<forall>q\<in>set (playersById m). stealCandidate (mball m) owner q \<longrightarrow>
              V_distSq (pos p) (bpos (mball m)) \<le> V_distSq (pos q) (bpos (mball m)))
        \<and> m' = setBallOwner m p)"
  by (auto simp: tryStealOwnedBallByBallContact_def Let_def dest!: nearest_Some
      split: if_splits option.splits prod.splits)

lemma trySteal_candidate:
  assumes ow: "truthy (ownerPlayerId (mball m))"
     and lo: "lookupOwner (playersById m) (ownerPlayerId (mball m)) = Some owner"
     and p: "p \<in> set (playersById m)" and c: "stealCandidate (mball m) owner p"
  shows "\<exists>q. tryStealOwnedBallByBallContact m = (setBallOwner m q, Some q)
            \<and> q \<in> set (playersById m) \<and> stealCandidate (mball m) owner q
            \<and> V_distSq (pos q) (bpos (mball m)) \<le> V_distSq (pos p) (bpos (mball m))"
proof -
  let ?n = "nearest (stealCandidate (mball m) owner) (\<lambda>p. V_distSq (pos p) (bpos (mball m))) (playersById m)"
  have "?n \<noteq> None" using p c by (auto simp: nearest_None)
  then obtain q d where n: "?n = Some (q, d)" by (cases ?n) auto
  from nearest_Some[OF n] p c
  have "q \<in> set (playersById m)" "stealCandidate (mball m) owner q"
    "V_distSq (pos q) (bpos (mball m)) \<le> V_distSq (pos p) (bpos (mball m))" by auto
  moreover have "tryStealOwnedBallByBallContact m = (setBallOwner m q, Some q)"
    using ow lo n by (simp add: tryStealOwnedBallByBallContact_def Let_def)
  ultimately show ?thesis by blast
qed

lemma humanKickActions_stealCooldown:
  "stealCooldownMs (humanKickActions e inp dtMs co) = stealCooldownMs e"
  by (simp add: humanKickActions_def Let_def)

lemma humanKickActions_owner:
  "ownerPlayerId (mball (match (humanKickActions e inp dtMs co))) =
     (if actionReleased inp \<or> shootReleased inp then None else ownerPlayerId (mball (match e)))"
  by (simp add: humanKickActions_def Let_def releaseBallWithKick_def)

lemma setBallOwner_owner: "ownerPlayerId (mball (setBallOwner m p)) = Some (pid p)"
  by (simp add: setBallOwner_def)

lemma gkPossessionSwitch_frame:
  "stealCooldownMs (gkPossessionSwitch e) = stealCooldownMs e"
  "shootChargeMs (gkPossessionSwitch e) = shootChargeMs e"
  by (simp_all add: gkPossessionSwitch_def Let_def split: option.splits)

lemma gkPossessionSwitch_ball: "mball (match (gkPossessionSwitch e)) = mball (match e)"
  by (simp add: gkPossessionSwitch_def Let_def split: option.splits)

lemma gkPossessionSwitch_players: "playersById (match (gkPossessionSwitch e)) = playersById (match e)"
  by (simp add: gkPossessionSwitch_def Let_def split: option.splits)

lemma kickPhase_stealCooldown: "stealCooldownMs (kickPhase e inp dtMs) = stealCooldownMs e"
  by (simp add: kickPhase_def Let_def humanKickActions_stealCooldown split: option.splits)

lemma kickPhase_owner:
  "ownerPlayerId (mball (match (kickPhase e inp dtMs))) = ownerPlayerId (mball (match e))
   \<or> ownerPlayerId (mball (match (kickPhase e inp dtMs))) = None"
  by (simp add: kickPhase_def Let_def humanKickActions_owner split: option.splits)

lemma attachPhase_frame:
  "stealCooldownMs (attachPhase e) = stealCooldownMs e"
  "shootChargeMs (attachPhase e) = shootChargeMs e"
  "actionChargeMs (attachPhase e) = actionChargeMs e"
  "ownerPlayerId (mball (match (attachPhase e))) = ownerPlayerId (mball (match e))"
  "playersById (match (attachPhase e)) = playersById (match e)"
  "controlledPlayerId (match (attachPhase e)) = controlledPlayerId (match e)"
  by (simp_all add: attachPhase_def Let_def attachBallToOwner_def split: option.splits)

lemma stealPhase_blocked: "0 < stealCooldownMs e \<Longrightarrow> stealPhase e = e"
  by (simp add: stealPhase_def)

lemma stepOwnedBall_steal_cooldown:
  assumes "stealCooldownMs e \<le> 0" and "tryStealOwnedBallByBallContact (match e) = (m', Some s)"
  shows "stealCooldownMs (stepOwnedBall e inp dtMs) = 650"
proof -
  from trySteal_cases[OF assms(2)] obtain owner where
    t: "truthy (ownerPlayerId (mball (match e)))"
    and lo: "lookupOwner (playersById (match e)) (ownerPlayerId (mball (match e))) = Some owner"
    by auto
  have "stealCooldownMs (stealPhase e) = 650" using assms by (simp add: stealPhase_def)
  then show ?thesis
    using t lo
    by (simp add: stepOwnedBall_def Let_def attachPhase_frame kickPhase_stealCooldown
        gkPossessionSwitch_frame)
qed

lemma stepOwnedBall_no_steal:
  assumes "0 < stealCooldownMs e"
  shows "stealCooldownMs (stepOwnedBall e inp dtMs) = stealCooldownMs e
       \<and> (ownerPlayerId (mball (match (stepOwnedBall e inp dtMs))) = ownerPlayerId (mball (match e))
          \<or> ownerPlayerId (mball (match (stepOwnedBall e inp dtMs))) = None)"
  using kickPhase_owner[of "gkPossessionSwitch e" inp dtMs]
  by (auto simp: stepOwnedBall_def Let_def stealPhase_blocked[OF assms] attachPhase_frame
      kickPhase_stealCooldown gkPossessionSwitch_frame gkPossessionSwitch_ball split: option.splits)


lemma lookupP_Some: "lookupP ps i = Some p \<Longrightarrow> p \<in> set ps \<and> pid p = i"
  by (auto simp: lookupP_def find_Some_iff)

lemma lookupOwner_Some: "lookupOwner ps s = Some p \<Longrightarrow> p \<in> set ps \<and> s = Some (pid p) \<and> pid p \<noteq> []"
  by (auto simp: lookupOwner_def dest: lookupP_Some split: option.splits if_splits)

lemma distinct_pid_eq: "distinct (map pid ps) \<Longrightarrow> p \<in> set ps \<Longrightarrow> q \<in> set ps \<Longrightarrow> pid p = pid q \<Longrightarrow> p = q"
  by (meson distinct_map inj_onD)

lemma tm_players: "playersById tackleMatch =
  updP (pId ''cpu'' ''3'') (\<lambda>p. dribbler) (updP (pId ''kilo'' ''3'') (\<lambda>p. tackler)
    (homePlayers DEFAULT_ENGINE_CONFIG @ awayPlayers DEFAULT_ENGINE_CONFIG ''cpu'' ''CPU''))"
  by (simp add: tackleMatch_def players_initialMatch)

lemmas example_defs = homePlayers_def awayPlayers_def updP_def makePlayer_def pId_def
  DEFAULT_ENGINE_CONFIG_def

lemma tm_ball: "mball tackleMatch = \<lparr>bpos = \<lparr>vx = 0, vy = 0\<rparr>, bvel = \<lparr>vx = 0, vy = 0\<rparr>, radius = 1.2,
                    ownerPlayerId = Some (pId ''cpu'' ''3''), lastTouchTeamId = Some ''cpu'',
                    lastKickPlayerId = None, kickNoPickupMs = 0\<rparr>"
  by (simp add: tackleMatch_def initialMatch_def createMatch_def Let_def)

lemma tm_cands: "\<forall>q\<in>set (playersById tackleMatch). stealCandidate b dribbler q \<longrightarrow> q = tackler"
  by (simp add: tm_players example_defs not_candidate_still tackler_def dribbler_def)

lemma tackler_in: "tackler \<in> set (playersById tackleMatch)"
  by (simp add: tm_players example_defs tackler_def dribbler_def)

lemma tm_owner: "lookupOwner (playersById tackleMatch) (ownerPlayerId (mball tackleMatch)) = Some dribbler"
  by (simp add: tm_ball tm_players lookupOwner_def lookupP_def example_defs tackler_def dribbler_def)

lemma tackler_approach: "stealApproach (mball tackleMatch) tackler = 20"
  by (simp add: stealApproach_def tm_ball tackler_def makePlayer_def V_sub_def V_norm_axis_x V_dot_def)

lemma tackler_cand: "stealCandidate (mball tackleMatch) dribbler tackler"
  unfolding stealCandidate_def tackler_approach
  by (simp add: tm_ball kickImmune_def truthy_def STEAL_APPROACH_SPEED_MIN_def stealContactR2_def
      PLAYER_RADIUS_def BALL_STEAL_PAD_def tackler_def dribbler_def makePlayer_def pId_def
      V_distSq_def V_sub_def V_lenSq_def Let_def)

lemma itm_players: "playersById immuneTackleMatch = playersById tackleMatch"
  by (simp add: immuneTackleMatch_def)

lemma itm_ball: "mball immuneTackleMatch = (mball tackleMatch)\<lparr>lastKickPlayerId := Some (pId ''kilo'' ''3''),
                                               kickNoPickupMs := 150\<rparr>"
  by (simp add: immuneTackleMatch_def)

subsection \<open>Pass target\<close>

lemma insortBy_hd:
  "insortBy cmp x ys = (case ys of [] \<Rightarrow> [x] | y # zs \<Rightarrow> if cmp x y \<le> 0 then x # ys else y # insortBy cmp x zs)"
  by (cases ys) auto

lemma set_insortBy: "set (insortBy cmp x ys) = insert x (set ys)"
  by (induction ys) auto

lemma set_sortBy: "set (sortBy cmp xs) = set xs"
  by (induction xs) (auto simp: sortBy_def set_insortBy)

lemma sortBy_Cons: "sortBy cmp (x # xs) = insortBy cmp x (sortBy cmp xs)"
  by (simp add: sortBy_def)

lemma sortBy_head_least:
  assumes trans: "\<And>a b c. cmp a b \<le> 0 \<Longrightarrow> cmp b c \<le> 0 \<Longrightarrow> cmp a c \<le> 0"
      and total: "\<And>a b. cmp a b \<le> 0 \<or> cmp b a \<le> 0"
  shows "xs \<noteq> [] \<Longrightarrow> \<exists>h t. sortBy cmp xs = h # t \<and> h \<in> set xs \<and> (\<forall>x\<in>set xs. cmp h x \<le> 0)"
proof (induction xs)
  case Nil
  then show ?case by simp
next
  case (Cons x xs)
  show ?case
  proof (cases "xs = []")
    case True
    then show ?thesis using total[of x x] by (simp add: sortBy_def)
  next
    case False
    from Cons.IH[OF False] obtain h t where
      s: "sortBy cmp xs = h # t" and h: "h \<in> set xs" and least: "\<forall>y\<in>set xs. cmp h y \<le> 0" by blast
    show ?thesis
    proof (cases "cmp x h \<le> 0")
      case True
      then have "sortBy cmp (x # xs) = x # h # t" by (simp add: sortBy_Cons s)
      moreover have "cmp x y \<le> 0" if "y \<in> set xs" for y
        using trans[OF True] least that by blast
      moreover have "cmp x x \<le> 0" using total[of x x] by simp
      ultimately show ?thesis by simp
    next
      case False
      then have "sortBy cmp (x # xs) = h # insortBy cmp x t" by (simp add: sortBy_Cons s)
      moreover have "cmp h x \<le> 0" using False total[of x h] by auto
      ultimately show ?thesis using h least by simp
    qed
  qed
qed

lemma orElse_le0: "orElse a b \<le> 0 \<longleftrightarrow> a < 0 \<or> (a = 0 \<and> b \<le> 0)"
  by (auto simp: orElse_def)

lemma cmpNear_le0:
  "cmpNear a b \<le> 0 \<longleftrightarrow>
     clateral a < clateral b \<or> (clateral a = clateral b \<and>
       (cahead a < cahead b \<or> (cahead a = cahead b \<and> cdist a \<le> cdist b)))"
  by (auto simp: cmpNear_def orElse_le0)

lemma cmpFar_le0:
  "cmpFar a b \<le> 0 \<longleftrightarrow>
     clateral a < clateral b \<or> (clateral a = clateral b \<and>
       (cahead b < cahead a \<or> (cahead a = cahead b \<and> cdist b \<le> cdist a)))"
  by (auto simp: cmpFar_def orElse_le0)

lemma sortBy_cmpNear_head:
  "xs \<noteq> [] \<Longrightarrow> \<exists>h t. sortBy cmpNear xs = h # t \<and> h \<in> set xs \<and> (\<forall>x\<in>set xs. cmpNear h x \<le> 0)"
  by (rule sortBy_head_least) (auto simp: cmpNear_le0)

lemma sortBy_cmpFar_head:
  "xs \<noteq> [] \<Longrightarrow> \<exists>h t. sortBy cmpFar xs = h # t \<and> h \<in> set xs \<and> (\<forall>x\<in>set xs. cmpFar h x \<le> 0)"
  by (rule sortBy_head_least) (auto simp: cmpFar_le0)

lemma minStep_simps:
  "minStep None x = Some x"
  "minStep (Some a) x = (if x < a then Some x else Some a)"
  by (simp_all add: minStep_def)

lemma foldl_minStep_Some:
  "foldl minStep (Some a) xs = Some b \<Longrightarrow> b \<le> a \<and> (\<forall>x\<in>set xs. b \<le> x) \<and> (b = a \<or> b \<in> set xs)"
proof (induction xs arbitrary: a)
  case Nil
  then show ?case by simp
next
  case (Cons x xs)
  show ?case
  proof (cases "x < a")
    case True
    with Cons.prems have "foldl minStep (Some x) xs = Some b" by (simp add: minStep_simps)
    from Cons.IH[OF this] True show ?thesis by auto
  next
    case False
    with Cons.prems have "foldl minStep (Some a) xs = Some b" by (simp add: minStep_simps)
    from Cons.IH[OF this] False show ?thesis by auto
  qed
qed

lemma foldl_minStep_not_None: "foldl minStep (Some a) xs \<noteq> None"
  by (induction xs arbitrary: a) (auto simp: minStep_simps)

lemma foldl_minStep_least:
  "xs \<noteq> [] \<Longrightarrow> \<exists>b. foldl minStep None xs = Some b \<and> b \<in> set xs \<and> (\<forall>x\<in>set xs. b \<le> x)"
proof (cases xs)
  case Nil
  assume "xs \<noteq> []"
  with Nil show ?thesis by simp
next
  case (Cons x ys)
  obtain b where b: "foldl minStep (Some x) ys = Some b"
    using foldl_minStep_not_None[of x ys] by (cases "foldl minStep (Some x) ys") auto
  from foldl_minStep_Some[OF b] b Cons show ?thesis
    by (auto simp: minStep_simps)
qed

text \<open>The lane band holds every candidate of least lateral deviation.\<close>

lemma passLaneBand_props:
  assumes "pool \<noteq> []"
  shows "set (passLaneBand pool) \<subseteq> set pool"
    and "\<exists>c\<in>set (passLaneBand pool). \<forall>c'\<in>set pool. clateral c \<le> clateral c'"
    and "passLaneBand pool \<noteq> []"
    and "c \<in> set pool \<Longrightarrow> (\<forall>c'\<in>set pool. clateral c \<le> clateral c') \<Longrightarrow> c \<in> set (passLaneBand pool)"
proof -
  from assms have ne: "map clateral pool \<noteq> []" by simp
  from foldl_minStep_least[OF ne] obtain b where
    b: "foldl minStep None (map clateral pool) = Some b" "b \<in> set (map clateral pool)"
       "\<forall>x\<in>set (map clateral pool). b \<le> x" by blast
  show "set (passLaneBand pool) \<subseteq> set pool" by (auto simp: passLaneBand_def Let_def)
  from b(2) obtain c0 where c0: "c0 \<in> set pool" "clateral c0 = b" by auto
  have in_band: "c0 \<in> set (passLaneBand pool)" using c0 b(1) by (simp add: passLaneBand_def Let_def)
  then show "\<exists>c\<in>set (passLaneBand pool). \<forall>c'\<in>set pool. clateral c \<le> clateral c'"
    using b(3) c0 by auto
  from in_band show "passLaneBand pool \<noteq> []" by auto
  show "c \<in> set (passLaneBand pool)" if "c \<in> set pool" "\<forall>c'\<in>set pool. clateral c \<le> clateral c'"
    using that c0 b by (auto simp: passLaneBand_def Let_def)
qed

lemma passPool_eq:
  "passPool cands = (if \<exists>c\<in>set cands. cahead c > 1 then filter (\<lambda>c. cahead c > 1) cands else cands)"
  unfolding passPool_def Let_def filter_empty_conv by simp

lemma passPool_subset: "set (passPool cands) \<subseteq> set cands"
  unfolding passPool_eq by auto

lemma passPool_nonempty: "cands \<noteq> [] \<Longrightarrow> passPool cands \<noteq> []"
  unfolding passPool_eq by (auto simp: filter_empty_conv)


lemma V_norm_nonzero_unit:
  assumes "\<not> V_lenSq (V_norm a) < 1 / 10 ^ 6"
  shows "V_lenSq (V_norm a) = 1"
proof (cases "V_len a \<le> 1 / 10 ^ 9")
  case True
  then have "V_norm a = \<lparr>vx = 0, vy = 0\<rparr>" by (simp add: V_norm_def Let_def)
  with assms show ?thesis by (simp add: V_lenSq_def)
next
  case False
  then show ?thesis using V_norm_unit[of a] by simp
qed

lemma passCand_Some:
  "passCand kicker aim t = Some c \<Longrightarrow>
     cp c = t \<and> pid t \<noteq> pid kicker \<and> 3 \<le> cdist c
     \<and> cdist c = V_len (V_sub (pos t) (pos kicker))
     \<and> cahead c = V_dot (V_sub (pos t) (pos kicker)) aim
     \<and> clateral c = \<bar>vx (V_sub (pos t) (pos kicker)) * vy aim - vy (V_sub (pos t) (pos kicker)) * vx aim\<bar>"
  by (auto simp: passCand_def Let_def split: if_splits)

lemma passCand_dist_sq:
  assumes c: "passCand kicker aim t = Some c" and u: "V_lenSq aim = 1"
  shows "cdist c * cdist c = cahead c * cahead c + clateral c * clateral c" and "0 \<le> cdist c"
proof -
  let ?to = "V_sub (pos t) (pos kicker)"
  from passCand_Some[OF c] have d: "cdist c = V_len ?to" and a: "cahead c = V_dot ?to aim"
    and l: "clateral c = \<bar>vx ?to * vy aim - vy ?to * vx aim\<bar>" by auto
  have nn: "0 \<le> V_lenSq ?to" by (simp add: V_lenSq_def)
  have "cdist c * cdist c = V_lenSq ?to" using nn by (simp add: d V_len_def)
  also have "\<dots> = V_lenSq ?to * V_lenSq aim" using u by simp
  also have "\<dots> = cahead c * cahead c + (vx ?to * vy aim - vy ?to * vx aim) * (vx ?to * vy aim - vy ?to * vx aim)"
    by (simp add: a V_lenSq_def V_dot_def algebra_simps)
  also have "\<dots> = cahead c * cahead c + clateral c * clateral c"
    by (simp add: l)
  finally show "cdist c * cdist c = cahead c * cahead c + clateral c * clateral c" .
  show "0 \<le> cdist c" by (simp add: d V_len_def nn)
qed

lemma map_filter_mem: "c \<in> set (List.map_filter f xs) \<longleftrightarrow> (\<exists>x\<in>set xs. f x = Some c)"
  by (induction xs) (auto simp: map_filter_simps split: option.splits)

lemma sq_le_imp_le:
  fixes a b :: real
  assumes "0 \<le> a" "0 \<le> b" "a * a \<le> b * b"
  shows "a \<le> b"
  using assms by (metis abs_le_square_iff abs_of_nonneg power2_eq_square)

lemma cand_dist_mono:
  assumes u: "V_lenSq aim = 1"
    and c: "c \<in> set (List.map_filter (passCand kicker aim) ts)"
    and c': "c' \<in> set (List.map_filter (passCand kicker aim) ts)"
    and l: "clateral c = clateral c'" and a0: "0 \<le> cahead c" and a: "cahead c \<le> cahead c'"
  shows "cdist c \<le> cdist c'"
proof -
  from c obtain t where t: "passCand kicker aim t = Some c" by (auto simp: map_filter_mem)
  from c' obtain t' where t': "passCand kicker aim t' = Some c'" by (auto simp: map_filter_mem)
  have "cahead c * cahead c \<le> cahead c' * cahead c'" using a0 a by (simp add: mult_mono)
  then have "cdist c * cdist c \<le> cdist c' * cdist c'"
    using passCand_dist_sq(1)[OF t u] passCand_dist_sq(1)[OF t' u] l by simp
  then show ?thesis using passCand_dist_sq(2)[OF t u] passCand_dist_sq(2)[OF t' u]
    by (rule sq_le_imp_le[rotated 2])
qed

lemma pickBestPassTarget_aimed:
  assumes "\<not> V_lenSq (V_norm aimDir) < 1 / 10 ^ 6"
      and "List.map_filter (passCand kicker (V_norm aimDir)) (getTeamPlayers m t) \<noteq> []"
  shows "pickBestPassTarget m t kicker aimDir preferFar =
     (case sortBy (if \<not> preferFar then cmpNear else cmpFar)
             (passLaneBand (passPool (List.map_filter (passCand kicker (V_norm aimDir)) (getTeamPlayers m t)))) of
        [] \<Rightarrow> None | c # _ \<Rightarrow> Some (cp c))"
  using assms by (simp add: pickBestPassTarget_def Let_def)

lemma pick_tap:
  assumes aim: "\<not> V_lenSq (V_norm aimDir) < 1 / 10 ^ 6"
      and cands: "cands = List.map_filter (passCand kicker (V_norm aimDir)) (getTeamPlayers m t)"
      and ne: "cands \<noteq> []"
  shows "\<exists>c\<in>set (passLaneBand (passPool cands)).
           pickBestPassTarget m t kicker aimDir False = Some (cp c)
         \<and> (\<forall>c'\<in>set (passPool cands). clateral c \<le> clateral c'
              \<and> (clateral c' = clateral c \<longrightarrow> cahead c \<le> cahead c'
                   \<and> (cahead c' = cahead c \<longrightarrow> cdist c \<le> cdist c')))"
proof -
  let ?pool = "passPool cands" and ?band = "passLaneBand (passPool cands)"
  have pne: "?pool \<noteq> []" using ne by (rule passPool_nonempty)
  note bp = passLaneBand_props[OF pne]
  from sortBy_cmpNear_head[OF bp(3)] obtain h tl where
    s: "sortBy cmpNear ?band = h # tl" and h: "h \<in> set ?band" and least: "\<forall>x\<in>set ?band. cmpNear h x \<le> 0"
    by blast
  have pick: "pickBestPassTarget m t kicker aimDir False = Some (cp h)"
    using pickBestPassTarget_aimed[OF aim, of kicker m t False] ne s by (simp add: cands)
  from bp(2) obtain c0 where c0: "c0 \<in> set ?band" "\<forall>c'\<in>set ?pool. clateral c0 \<le> clateral c'" by blast
  have hl: "clateral h \<le> clateral c0" using least c0(1) by (auto simp: cmpNear_le0)
  have hmin: "\<forall>c'\<in>set ?pool. clateral h \<le> clateral c'" using hl c0(2) by fastforce
  have hpool: "h \<in> set ?pool" using h bp(1) by auto
  have tie: "cahead h \<le> cahead c' \<and> (cahead c' = cahead h \<longrightarrow> cdist h \<le> cdist c')"
    if c': "c' \<in> set ?pool" and e: "clateral c' = clateral h" for c'
  proof -
    have "\<forall>x\<in>set ?pool. clateral c' \<le> clateral x" using hmin e by simp
    from bp(4)[OF c' this] have "cmpNear h c' \<le> 0" using least by blast
    then show ?thesis using e by (auto simp: cmpNear_le0)
  qed
  show ?thesis using h pick hmin tie by blast
qed

lemma pick_hold:
  assumes aim: "\<not> V_lenSq (V_norm aimDir) < 1 / 10 ^ 6"
      and cands: "cands = List.map_filter (passCand kicker (V_norm aimDir)) (getTeamPlayers m t)"
      and ne: "cands \<noteq> []"
  shows "\<exists>c\<in>set (passLaneBand (passPool cands)).
           pickBestPassTarget m t kicker aimDir True = Some (cp c)
         \<and> (\<forall>c'\<in>set (passLaneBand (passPool cands)). clateral c' = clateral c \<longrightarrow>
               cahead c' \<le> cahead c \<and> (cahead c' = cahead c \<longrightarrow> cdist c' \<le> cdist c))"
proof -
  let ?pool = "passPool cands" and ?band = "passLaneBand (passPool cands)"
  have pne: "?pool \<noteq> []" using ne by (rule passPool_nonempty)
  note bp = passLaneBand_props[OF pne]
  from sortBy_cmpFar_head[OF bp(3)] obtain h tl where
    s: "sortBy cmpFar ?band = h # tl" and h: "h \<in> set ?band" and least: "\<forall>x\<in>set ?band. cmpFar h x \<le> 0"
    by blast
  have pick: "pickBestPassTarget m t kicker aimDir True = Some (cp h)"
    using pickBestPassTarget_aimed[OF aim, of kicker m t True] ne s by (simp add: cands)
  have tie: "cahead c' \<le> cahead h \<and> (cahead c' = cahead h \<longrightarrow> cdist c' \<le> cdist h)"
    if c': "c' \<in> set ?band" and e: "clateral c' = clateral h" for c'
  proof -
    have "cmpFar h c' \<le> 0" using least c' by blast
    then show ?thesis using e by (auto simp: cmpFar_le0)
  qed
  show ?thesis using h pick tie by blast
qed

lemmas pass_example_defs = passTeam_def passer_def nearMate_def farMate_def farMateOffAxis_def
  awayPlayers_def makePlayer_def pId_def

lemma V_len_less_iff: "0 \<le> c \<Longrightarrow> V_len a < c \<longleftrightarrow> V_lenSq a < c * c"
proof -
  assume c: "0 \<le> c"
  have "sqrt (V_lenSq a) < sqrt (c * c) \<longleftrightarrow> V_lenSq a < c * c" by (rule real_sqrt_less_iff)
  then show ?thesis using c by (simp add: V_len_def)
qed

lemma V_norm_x1: "V_norm \<lparr>vx = 1, vy = 0\<rparr> = \<lparr>vx = 1, vy = 0\<rparr>"
  by (simp add: V_norm_def V_len_def V_lenSq_def)

lemma teams_passMatch:
  "teamsById passMatch = [\<lparr>tid = ''kilo'', players = map pid (homePlayers DEFAULT_ENGINE_CONFIG)\<rparr>,
                          \<lparr>tid = ''cpu'', players = map pid (awayPlayers DEFAULT_ENGINE_CONFIG ''cpu'' ''CPU'')\<rparr>]"
  by (simp add: passMatch_def initialMatch_def createMatch_def Let_def)

lemma players_passMatch:
  "playersById passMatch = passTeam @ awayPlayers DEFAULT_ENGINE_CONFIG ''cpu'' ''CPU''"
  by (simp add: passMatch_def)

lemma team_passMatch: "getTeamPlayers passMatch ''kilo'' = passTeam"
  by (simp add: getTeamPlayers_def teamPlayerIds_def teams_passMatch lookupT_def derefs_def
      map_filter_simps lookupP_def players_passMatch homePlayers_def pass_example_defs)

lemma teams_passMatchOffAxis: "teamsById passMatchOffAxis = teamsById passMatch"
  by (simp add: passMatchOffAxis_def)

lemma players_passMatchOffAxis:
  "playersById passMatchOffAxis = passTeam[4 := farMateOffAxis] @ awayPlayers DEFAULT_ENGINE_CONFIG ''cpu'' ''CPU''"
  by (simp add: passMatchOffAxis_def players_passMatch updP_def pass_example_defs)

lemma team_passMatchOffAxis:
  "getTeamPlayers passMatchOffAxis ''kilo'' = passTeam[4 := farMateOffAxis]"
  by (simp add: getTeamPlayers_def teamPlayerIds_def teams_passMatchOffAxis teams_passMatch lookupT_def
      derefs_def map_filter_simps lookupP_def players_passMatchOffAxis homePlayers_def pass_example_defs)

lemma cands_passMatch:
  "List.map_filter (passCand passer \<lparr>vx = 1, vy = 0\<rparr>) passTeam =
     [candOf (passTeam ! 0) 54 (- 54) 0, candOf (passTeam ! 1) 30 (- 30) 0,
      candOf nearMate 10 10 0, candOf farMate 30 30 0]"
  by (simp add: map_filter_simps passCand_def Let_def V_sub_def V_len_axis_x V_dot_def candOf_def
      pass_example_defs)

lemma cands_passMatchOffAxis:
  "List.map_filter (passCand passer \<lparr>vx = 1, vy = 0\<rparr>) (passTeam[4 := farMateOffAxis]) =
     [candOf (passTeam ! 0) 54 (- 54) 0, candOf (passTeam ! 1) 30 (- 30) 0,
      candOf nearMate 10 10 0, candOf farMateOffAxis (V_len \<lparr>vx = 30, vy = 1\<rparr>) 30 1]"
  by (simp add: map_filter_simps passCand_def Let_def V_sub_def V_len_axis_x V_dot_def candOf_def
      V_len_less_iff V_lenSq_def pass_example_defs)

lemma band_passMatch:
  "passLaneBand (passPool [candOf g 54 (- 54) 0, candOf d 30 (- 30) 0, candOf n 10 10 0, candOf f df 30 l])
     = (if l \<le> 2.25 then [candOf n 10 10 0, candOf f df 30 l] else [candOf n 10 10 0])" if "0 \<le> l"
  using that by (simp add: passPool_def passLaneBand_def Let_def candOf_def minStep_simps)

lemma pick_passMatch:
  "pickBestPassTarget passMatch ''kilo'' passer \<lparr>vx = 1, vy = 0\<rparr> preferFar
     = Some (if preferFar then farMate else nearMate)"
proof -
  have "pickBestPassTarget passMatch ''kilo'' passer \<lparr>vx = 1, vy = 0\<rparr> preferFar
     = (case sortBy (if \<not> preferFar then cmpNear else cmpFar)
               [candOf nearMate 10 10 0, candOf farMate 30 30 0] of
          [] \<Rightarrow> None | c # _ \<Rightarrow> Some (cp c))"
    by (simp add: pickBestPassTarget_def Let_def V_norm_x1 V_lenSq_def team_passMatch cands_passMatch
        band_passMatch)
  then show ?thesis
    by (simp add: sortBy_def cmpNear_def cmpFar_def orElse_def candOf_def)
qed

lemma pick_passMatchOffAxis:
  "pickBestPassTarget passMatchOffAxis ''kilo'' passer \<lparr>vx = 1, vy = 0\<rparr> preferFar = Some nearMate"
proof -
  have "pickBestPassTarget passMatchOffAxis ''kilo'' passer \<lparr>vx = 1, vy = 0\<rparr> preferFar
     = (case sortBy (if \<not> preferFar then cmpNear else cmpFar)
               [candOf nearMate 10 10 0, candOf farMateOffAxis (V_len \<lparr>vx = 30, vy = 1\<rparr>) 30 1] of
          [] \<Rightarrow> None | c # _ \<Rightarrow> Some (cp c))"
    by (simp add: pickBestPassTarget_def Let_def V_norm_x1 V_lenSq_def team_passMatchOffAxis
        cands_passMatchOffAxis band_passMatch)
  then show ?thesis
    by (simp add: sortBy_def cmpNear_def cmpFar_def orElse_def candOf_def)
qed

subsection \<open>Pass and shoot released together\<close>


















section \<open>Frames and invariants\<close>

subsection \<open>The store\<close>

lemma lookupP_None: "lookupP ps i = None \<longleftrightarrow> (\<forall>p\<in>set ps. pid p \<noteq> i)"
  by (auto simp: lookupP_def find_None_iff)

lemma lookupP_in: "distinct (map pid ps) \<Longrightarrow> p \<in> set ps \<Longrightarrow> lookupP ps (pid p) = Some p"
proof (induction ps)
  case Nil
  then show ?case by simp
next
  case (Cons a ps)
  show ?case
  proof (cases "a = p")
    case True
    then show ?thesis by (simp add: lookupP_def)
  next
    case False
    with Cons.prems have pin: "p \<in> set ps" by simp
    from Cons.prems(1) have "pid a \<notin> pid ` set ps" and d: "distinct (map pid ps)" by simp_all
    with pin have ne: "pid a \<noteq> pid p" by force
    from Cons.IH[OF d pin] ne show ?thesis by (simp add: lookupP_def)
  qed
qed

lemma pkey_simps:
  "pkey p = pkey q \<longleftrightarrow> pid p = pid q \<and> teamId p = teamId q \<and> role p = role q \<and> hasBall p = hasBall q"
  by (auto simp: pkey_def)

lemma lookupP_pkey:
  "map pkey ps' = map pkey ps \<Longrightarrow> map_option pkey (lookupP ps' i) = map_option pkey (lookupP ps i)"
proof (induction ps arbitrary: ps')
  case Nil
  then show ?case by (simp add: lookupP_def)
next
  case (Cons a ps)
  then obtain a' qs where ps': "ps' = a' # qs" and k: "pkey a' = pkey a" and r: "map pkey qs = map pkey ps"
    by (cases ps') auto
  from Cons.IH[OF r] k show ?case
    by (auto simp: ps' lookupP_def pkey_simps)
qed

lemma lookupOwner_pkey:
  "map pkey ps' = map pkey ps \<Longrightarrow> map_option pkey (lookupOwner ps' s) = map_option pkey (lookupOwner ps s)"
  using lookupP_pkey[of ps' ps] by (simp add: lookupOwner_def split: option.splits)

lemma set_pkey: "map pkey ps' = map pkey ps \<Longrightarrow> pkey ` set ps' = pkey ` set ps"
  by (metis set_map)

lemma pkey_ex:
  assumes "map pkey ps' = map pkey ps" and "p \<in> set ps"
  shows "\<exists>p'\<in>set ps'. pkey p' = pkey p"
proof -
  have "pkey p \<in> pkey ` set ps'" using set_pkey[OF assms(1)] assms(2) by auto
  then show ?thesis by auto
qed

lemma map_pid_pkey: "map pkey ps' = map pkey ps \<Longrightarrow> map pid ps' = map pid ps"
proof -
  assume h: "map pkey ps' = map pkey ps"
  have "map pid ps' = map fst (map pkey ps')" by (simp add: pkey_def comp_def)
  also have "\<dots> = map fst (map pkey ps)" by (simp only: h)
  also have "\<dots> = map pid ps" by (simp add: pkey_def comp_def)
  finally show ?thesis .
qed

lemma wfPlayers_pkey: "map pkey ps' = map pkey ps \<Longrightarrow> wfPlayers ps \<Longrightarrow> wfPlayers ps'"
proof -
  assume k: "map pkey ps' = map pkey ps" and w: "wfPlayers ps"
  have d: "distinct (map pid ps')" using w map_pid_pkey[OF k] by (simp add: wfPlayers_def)
  have "pid p' \<noteq> []" if "p' \<in> set ps'" for p'
  proof -
    from pkey_ex[OF k[symmetric] that] obtain p where "p \<in> set ps" "pkey p = pkey p'" by blast
    then show ?thesis using w by (auto simp: wfPlayers_def pkey_simps)
  qed
  with d show ?thesis by (simp add: wfPlayers_def)
qed

lemma team_refs_pkey:
  assumes k: "map pkey ps' = map pkey ps"
      and r: "\<forall>t\<in>set ts. \<forall>i\<in>set (players t). \<exists>p\<in>set ps. pid p = i \<and> teamId p = tid t"
  shows "\<forall>t\<in>set ts. \<forall>i\<in>set (players t). \<exists>p\<in>set ps'. pid p = i \<and> teamId p = tid t"
proof (intro ballI)
  fix t i assume "t \<in> set ts" "i \<in> set (players t)"
  with r obtain p where p: "p \<in> set ps" "pid p = i" "teamId p = tid t" by blast
  from pkey_ex[OF k p(1)] obtain p' where "p' \<in> set ps'" "pkey p' = pkey p" by blast
  then show "\<exists>p\<in>set ps'. pid p = i \<and> teamId p = tid t" using p by (auto simp: pkey_simps)
qed

lemma ball_pkey:
  assumes k: "map pkey ps' = map pkey ps" and h: "\<forall>p\<in>set ps. Q (pid p) (hasBall p)"
  shows "\<forall>p\<in>set ps'. Q (pid p) (hasBall p)"
proof
  fix p' assume "p' \<in> set ps'"
  from pkey_ex[OF k[symmetric] this] obtain p where "p \<in> set ps" "pkey p = pkey p'" by blast
  then show "Q (pid p') (hasBall p')" using h by (auto simp: pkey_simps)
qed

lemma ex_pid_pkey:
  assumes k: "map pkey ps' = map pkey ps" and h: "\<exists>p\<in>set ps. pid p = i"
  shows "\<exists>p\<in>set ps'. pid p = i"
proof -
  from h obtain p where p: "p \<in> set ps" "pid p = i" by blast
  from pkey_ex[OF k p(1)] p(2) show ?thesis by (auto simp: pkey_simps)
qed

lemma ownershipOk_pkey:
  assumes k: "map pkey (playersById m') = map pkey (playersById m)"
      and o: "ownerPlayerId (mball m') = ownerPlayerId (mball m)" and h: "ownershipOk m"
  shows "ownershipOk m'"
proof (cases "ownerPlayerId (mball m)")
  case None
  with h have "\<forall>p\<in>set (playersById m). \<not> hasBall p" by (simp add: ownershipOk_def)
  from ball_pkey[OF k, of "\<lambda>i b. \<not> b", OF this] show ?thesis using None o by (simp add: ownershipOk_def)
next
  case (Some i)
  with h have a: "\<exists>p\<in>set (playersById m). pid p = i"
    and b: "\<forall>p\<in>set (playersById m). hasBall p \<longleftrightarrow> pid p = i" by (simp_all add: ownershipOk_def)
  from ball_pkey[OF k, of "\<lambda>j b. b \<longleftrightarrow> j = i", OF b] ex_pid_pkey[OF k a]
  show ?thesis using Some o by (simp add: ownershipOk_def)
qed

lemma matchFrame_eq:
  "matchFrame m' = matchFrame m \<longleftrightarrow>
     map pkey (playersById m') = map pkey (playersById m)
   \<and> ownerPlayerId (mball m') = ownerPlayerId (mball m) \<and> teamsById m' = teamsById m
   \<and> homeTeamId m' = homeTeamId m \<and> awayTeamId m' = awayTeamId m \<and> humanTeamId m' = humanTeamId m
   \<and> controlledPlayerId m' = controlledPlayerId m"
  by (auto simp: matchFrame_def)

lemma wfMatch_frame: "matchFrame m' = matchFrame m \<Longrightarrow> wfMatch m \<Longrightarrow> wfMatch m'"
proof -
  assume f: "matchFrame m' = matchFrame m" and w: "wfMatch m"
  from f have k: "map pkey (playersById m') = map pkey (playersById m)"
    and r: "teamsById m' = teamsById m" "homeTeamId m' = homeTeamId m" "awayTeamId m' = awayTeamId m"
           "humanTeamId m' = humanTeamId m"
    by (simp_all add: matchFrame_eq)
  from w have "wfPlayers (playersById m)"
    and "\<forall>t\<in>set (teamsById m). \<forall>i\<in>set (players t). \<exists>p\<in>set (playersById m). pid p = i \<and> teamId p = tid t"
    by (simp_all add: wfMatch_def)
  from wfPlayers_pkey[OF k this(1)] team_refs_pkey[OF k this(2)] w r
  show ?thesis by (simp add: wfMatch_def)
qed

lemma ownershipOk_frame: "matchFrame m' = matchFrame m \<Longrightarrow> ownershipOk m \<Longrightarrow> ownershipOk m'"
  unfolding matchFrame_eq using ownershipOk_pkey[of m' m] by blast

lemma controlledOk_frame: "matchFrame m' = matchFrame m \<Longrightarrow> controlledOk m \<Longrightarrow> controlledOk m'"
  unfolding matchFrame_eq controlledOk_def
  using lookupP_pkey[of "playersById m'" "playersById m" "controlledPlayerId m"]
  by (auto simp: pkey_simps split: option.splits)

lemma controlledOwner_frame: "matchFrame m' = matchFrame m \<Longrightarrow> controlledOwner m' = controlledOwner m"
  unfolding matchFrame_eq controlledOwner_def
  using lookupOwner_pkey[of "playersById m'" "playersById m" "ownerPlayerId (mball m)"]
  by (auto simp: pkey_simps split: option.splits)

lemma engineInv_frame:
  assumes "matchFrame (match e') = matchFrame (match e)"
      and "shootChargeMs e' = shootChargeMs e" and "actionChargeMs e' = actionChargeMs e"
      and "engineInv e"
  shows "engineInv e'"
  using assms wfMatch_frame[OF assms(1)] ownershipOk_frame[OF assms(1)] controlledOk_frame[OF assms(1)]
    controlledOwner_frame[OF assms(1)]
  by (auto simp: engineInv_def chargeInv_def)

lemma chargeCarry_frame:
  assumes "matchFrame (match e') = matchFrame (match e)"
      and "shootChargeMs e' = shootChargeMs e" and "actionChargeMs e' = actionChargeMs e"
      and "chargeCarry fs fa e0 e"
  shows "chargeCarry fs fa e0 e'"
  using assms by (auto simp: chargeCarry_def chargesFresh_def sameOwnerAndControl_def matchFrame_eq)

subsection \<open>Movement keeps the frame\<close>

lemma updP_pkey: "(\<And>p. pkey (f p) = pkey p) \<Longrightarrow> map pkey (updP i f ps) = map pkey ps"
  by (simp add: updP_def)

lemma pkey_integratePlayer: "pkey (integratePlayer p d dt) = pkey p"
  by (simp add: integratePlayer_def Let_def pkey_def)

lemma pkey_containPlayerInPitch: "pkey (containPlayerInPitch cfg p) = pkey p"
  by (simp add: containPlayerInPitch_def Let_def pkey_def)

lemma moveControlled_frame:
  "matchFrame (match (moveControlled e inp dt c)) = matchFrame (match e)"
  "shootChargeMs (moveControlled e inp dt c) = shootChargeMs e"
  "actionChargeMs (moveControlled e inp dt c) = actionChargeMs e"
  "stealCooldownMs (moveControlled e inp dt c) = stealCooldownMs e"
  "switchCooldownMs (moveControlled e inp dt c) = switchCooldownMs e"
  "config (moveControlled e inp dt c) = config e"
  "clock (match (moveControlled e inp dt c)) = clock (match e)"
  "mscore (match (moveControlled e inp dt c)) = mscore (match e)"
  "mball (match (moveControlled e inp dt c)) = mball (match e)"
  by (simp_all add: moveControlled_def Let_def matchFrame_def updP_pkey pkey_integratePlayer
      pkey_containPlayerInPitch split: option.splits)

lemma moveNpc_frame:
  "matchFrame (moveNpc cfg t hp ow ch sk mu dt m i) = matchFrame m"
  "clock (moveNpc cfg t hp ow ch sk mu dt m i) = clock m"
  "mscore (moveNpc cfg t hp ow ch sk mu dt m i) = mscore m"
  "mball (moveNpc cfg t hp ow ch sk mu dt m i) = mball m"
  by (simp_all add: moveNpc_def Let_def matchFrame_def updP_pkey pkey_integratePlayer
      pkey_containPlayerInPitch)

lemma foldl_moveNpc_frame:
  "matchFrame (foldl (moveNpc cfg t hp ow ch sk mu dt) m ids) = matchFrame m
   \<and> clock (foldl (moveNpc cfg t hp ow ch sk mu dt) m ids) = clock m
   \<and> mscore (foldl (moveNpc cfg t hp ow ch sk mu dt) m ids) = mscore m
   \<and> mball (foldl (moveNpc cfg t hp ow ch sk mu dt) m ids) = mball m"
  by (induction ids arbitrary: m) (simp_all add: moveNpc_frame)

lemma moveTeamNpcs_frame:
  "matchFrame (moveTeamNpcs cfg t hp ow ch sk mu dt m) = matchFrame m"
  "clock (moveTeamNpcs cfg t hp ow ch sk mu dt m) = clock m"
  "mscore (moveTeamNpcs cfg t hp ow ch sk mu dt m) = mscore m"
  "mball (moveTeamNpcs cfg t hp ow ch sk mu dt m) = mball m"
  by (simp_all add: moveTeamNpcs_def foldl_moveNpc_frame)

lemma moveNpcs_frame:
  "matchFrame (match (moveNpcs e p dt)) = matchFrame (match e)"
  "shootChargeMs (moveNpcs e p dt) = shootChargeMs e"
  "actionChargeMs (moveNpcs e p dt) = actionChargeMs e"
  "stealCooldownMs (moveNpcs e p dt) = stealCooldownMs e"
  "switchCooldownMs (moveNpcs e p dt) = switchCooldownMs e"
  "config (moveNpcs e p dt) = config e"
  "clock (match (moveNpcs e p dt)) = clock (match e)"
  "mscore (match (moveNpcs e p dt)) = mscore (match e)"
  "mball (match (moveNpcs e p dt)) = mball (match e)"
  by (simp_all add: moveNpcs_def Let_def moveTeamNpcs_frame)

lemma kickCountdown_frame:
  "matchFrame (match (kickCountdown e dtMs)) = matchFrame (match e)"
  "shootChargeMs (kickCountdown e dtMs) = shootChargeMs e"
  "actionChargeMs (kickCountdown e dtMs) = actionChargeMs e"
  "stealCooldownMs (kickCountdown e dtMs) = stealCooldownMs e"
  "switchCooldownMs (kickCountdown e dtMs) = switchCooldownMs e"
  "config (kickCountdown e dtMs) = config e"
  "clock (match (kickCountdown e dtMs)) = clock (match e)"
  "mscore (match (kickCountdown e dtMs)) = mscore (match e)"
  by (simp_all add: kickCountdown_def matchFrame_def)

lemma attachPhase_matchFrame:
  "matchFrame (match (attachPhase e)) = matchFrame (match e)"
  "config (attachPhase e) = config e"
  "clock (match (attachPhase e)) = clock (match e)"
  "mscore (match (attachPhase e)) = mscore (match e)"
  "switchCooldownMs (attachPhase e) = switchCooldownMs e"
  by (simp_all add: attachPhase_def Let_def attachBallToOwner_def matchFrame_def split: option.splits)


section \<open>Goal detection\<close>

text \<open>
  C2. \<open>detectGoal\<close> reports a goal exactly when the ball's \<open>|y|\<close> is within the goal
  half-width and its \<open>x\<close> has reached the pitch half-width plus the ball radius on either
  end. The home team attacks \<open>+x\<close>; a ball beyond the \<open>-x\<close> line scores for the away team
  and a ball beyond the \<open>+x\<close> line scores for the home team. The pitch half-width plus the
  ball radius is positive (a configuration precondition): otherwise the two ends overlap.
\<close>

theorem detectGoal_side_correct:
  assumes "0 < pitchW cfg / 2 + radius b"
  shows "(scored (detectGoal m cfg b) \<longleftrightarrow>
           \<bar>vy (bpos b)\<bar> \<le> goalHalfW cfg \<and>
           (vx (bpos b) \<le> - (pitchW cfg / 2) - radius b \<or> vx (bpos b) \<ge> pitchW cfg / 2 + radius b))
       \<and> getAttackDirX m (homeTeamId m) = 1
       \<and> (\<bar>vy (bpos b)\<bar> \<le> goalHalfW cfg \<and> vx (bpos b) \<le> - (pitchW cfg / 2) - radius b
            \<longrightarrow> detectGoal m cfg b = \<lparr>scored = True, scoringTeamId = Some (awayTeamId m)\<rparr>)
       \<and> (\<bar>vy (bpos b)\<bar> \<le> goalHalfW cfg \<and> vx (bpos b) \<ge> pitchW cfg / 2 + radius b
            \<longrightarrow> detectGoal m cfg b = \<lparr>scored = True, scoringTeamId = Some (homeTeamId m)\<rparr>)"
  using assms by (auto simp: detectGoal_def getAttackDirX_def Let_def)

theorem detectGoal_side_correct_witness:
  "0 < pitchW DEFAULT_ENGINE_CONFIG / 2 + radius ballBehindLeftLine
   \<and> \<bar>vy (bpos ballBehindLeftLine)\<bar> \<le> goalHalfW DEFAULT_ENGINE_CONFIG
   \<and> vx (bpos ballBehindLeftLine) \<le> - (pitchW DEFAULT_ENGINE_CONFIG / 2) - radius ballBehindLeftLine
   \<and> detectGoal initialMatch DEFAULT_ENGINE_CONFIG ballBehindLeftLine
       = \<lparr>scored = True, scoringTeamId = Some (awayTeamId initialMatch)\<rparr>"
  using detectGoal_side_correct[of DEFAULT_ENGINE_CONFIG ballBehindLeftLine initialMatch]
  by (simp add: DEFAULT_ENGINE_CONFIG_def createMatch_def Let_def ballBehindLeftLine_def initialMatch_def)


section \<open>Steal rule\<close>

text \<open>
  C3, as stated: a defender closing in at high speed whose contact radius overlaps the
  ball gains possession. It fails for the last kicker inside his kick-immunity window:
  the home midfielder, 2 units from the ball and running into it at 20, is skipped by the
  steal because he kicked the ball 70 ms ago, and the dribbler keeps it.
\<close>

theorem steal_immune_kicker_counterexample:
  "truthy (ownerPlayerId (mball immuneTackleMatch))
   \<and> lookupOwner (playersById immuneTackleMatch) (ownerPlayerId (mball immuneTackleMatch)) = Some dribbler
   \<and> tackler \<in> set (playersById immuneTackleMatch)
   \<and> teamId tackler \<noteq> teamId dribbler
   \<and> stealApproach (mball immuneTackleMatch) tackler = 20
   \<and> STEAL_APPROACH_SPEED_MIN \<le> 20
   \<and> V_distSq (pos tackler) (bpos (mball immuneTackleMatch)) \<le> stealContactR2 (mball immuneTackleMatch)
   \<and> tryStealOwnedBallByBallContact immuneTackleMatch = (immuneTackleMatch, None)"
proof -
  have t: "truthy (ownerPlayerId (mball immuneTackleMatch))"
    by (simp add: itm_ball tm_ball truthy_def pId_def)
  have lo: "lookupOwner (playersById immuneTackleMatch) (ownerPlayerId (mball immuneTackleMatch)) = Some dribbler"
    using tm_owner by (simp add: itm_players itm_ball)
  have ap: "stealApproach (mball immuneTackleMatch) tackler = 20"
    using tackler_approach by (simp add: stealApproach_def itm_ball)
  have d: "V_distSq (pos tackler) (bpos (mball immuneTackleMatch)) \<le> stealContactR2 (mball immuneTackleMatch)"
    by (simp add: itm_ball tm_ball stealContactR2_def PLAYER_RADIUS_def BALL_STEAL_PAD_def tackler_def
        makePlayer_def V_distSq_def V_sub_def V_lenSq_def Let_def)
  have imm: "kickImmune (mball immuneTackleMatch) tackler"
    by (simp add: kickImmune_def itm_ball truthy_def pId_def tackler_def makePlayer_def)
  have "\<forall>q\<in>set (playersById immuneTackleMatch). \<not> stealCandidate (mball immuneTackleMatch) dribbler q"
    using tm_cands[of "mball immuneTackleMatch"] imm by (auto simp: itm_players stealCandidate_def)
  then have "tryStealOwnedBallByBallContact immuneTackleMatch = (immuneTackleMatch, None)"
    using t lo by (simp add: tryStealOwnedBallByBallContact_def Let_def nearest_None[THEN iffD2])
  then show ?thesis
    using t lo ap d tackler_in
    by (simp add: itm_players STEAL_APPROACH_SPEED_MIN_def tackler_def dribbler_def makePlayer_def)
qed

text \<open>
  C3, amended. A steal hands the ball to a player of the store who is not the owner, is
  within the steal radius of the ball, approaches it with at least the minimum approach
  speed and is not the last kicker inside the kick-immunity window. A player standing
  still never gains an owned ball. A player who meets these conditions and is strictly
  the nearest such player gains possession. In the owned-ball step a successful steal
  arms the steal cooldown at 650 ms, and while the cooldown is positive no steal runs:
  the owner stays or the ball is kicked free.
\<close>

theorem steal_rule:
  assumes wf: "distinct (map pid (playersById m))"
  shows "(\<forall>m' p. tryStealOwnedBallByBallContact m = (m', Some p) \<longrightarrow>
            p \<in> set (playersById m)
          \<and> V_distSq (pos p) (bpos (mball m)) \<le> stealContactR2 (mball m)
          \<and> STEAL_APPROACH_SPEED_MIN \<le> stealApproach (mball m) p
          \<and> \<not> kickImmune (mball m) p
          \<and> ownerPlayerId (mball m) \<noteq> Some (pid p)
          \<and> m' = setBallOwner m p \<and> ownerPlayerId (mball m') = Some (pid p))
       \<and> (\<forall>p\<in>set (playersById m). vel p = \<lparr>vx = 0, vy = 0\<rparr> \<and> ownerPlayerId (mball m) \<noteq> Some (pid p) \<longrightarrow>
            ownerPlayerId (mball (fst (tryStealOwnedBallByBallContact m))) \<noteq> Some (pid p))
       \<and> (\<forall>owner p. truthy (ownerPlayerId (mball m))
            \<and> lookupOwner (playersById m) (ownerPlayerId (mball m)) = Some owner
            \<and> p \<in> set (playersById m) \<and> stealCandidate (mball m) owner p
            \<and> (\<forall>q\<in>set (playersById m). stealCandidate (mball m) owner q \<longrightarrow>
                  q = p \<or> V_distSq (pos p) (bpos (mball m)) < V_distSq (pos q) (bpos (mball m)))
            \<longrightarrow> tryStealOwnedBallByBallContact m = (setBallOwner m p, Some p))
       \<and> (\<forall>e inp dtMs m' s. stealCooldownMs e \<le> 0
            \<and> tryStealOwnedBallByBallContact (match e) = (m', Some s)
            \<longrightarrow> stealCooldownMs (stepOwnedBall e inp dtMs) = 650)
       \<and> (\<forall>e inp dtMs. 0 < stealCooldownMs e \<longrightarrow>
            stealCooldownMs (stepOwnedBall e inp dtMs) = stealCooldownMs e
          \<and> (ownerPlayerId (mball (match (stepOwnedBall e inp dtMs))) = ownerPlayerId (mball (match e))
             \<or> ownerPlayerId (mball (match (stepOwnedBall e inp dtMs))) = None))"
proof -
  have a: "p \<in> set (playersById m)
          \<and> V_distSq (pos p) (bpos (mball m)) \<le> stealContactR2 (mball m)
          \<and> STEAL_APPROACH_SPEED_MIN \<le> stealApproach (mball m) p
          \<and> \<not> kickImmune (mball m) p
          \<and> ownerPlayerId (mball m) \<noteq> Some (pid p)
          \<and> m' = setBallOwner m p \<and> ownerPlayerId (mball m') = Some (pid p)"
    if h: "tryStealOwnedBallByBallContact m = (m', Some p)" for m' p
  proof -
    from trySteal_cases[OF h] obtain owner where
      lo: "lookupOwner (playersById m) (ownerPlayerId (mball m)) = Some owner"
      and p: "p \<in> set (playersById m)" and c: "stealCandidate (mball m) owner p"
      and m': "m' = setBallOwner m p" by auto
    from lookupOwner_Some[OF lo] have "ownerPlayerId (mball m) = Some (pid owner)" by simp
    with c p m' show ?thesis
      by (auto simp: stealCandidate_def setBallOwner_owner)
  qed
  have b: "ownerPlayerId (mball (fst (tryStealOwnedBallByBallContact m))) \<noteq> Some (pid p)"
    if p: "p \<in> set (playersById m)" and still: "vel p = \<lparr>vx = 0, vy = 0\<rparr>"
      and no: "ownerPlayerId (mball m) \<noteq> Some (pid p)" for p
  proof (cases "tryStealOwnedBallByBallContact m")
    case (Pair m' r)
    from trySteal_cases[OF Pair] show ?thesis
    proof
      assume "r = None \<and> m' = m"
      then show ?thesis using Pair no by simp
    next
      assume "\<exists>owner q. r = Some q \<and> truthy (ownerPlayerId (mball m))
        \<and> lookupOwner (playersById m) (ownerPlayerId (mball m)) = Some owner
        \<and> q \<in> set (playersById m) \<and> stealCandidate (mball m) owner q
        \<and> (\<forall>q'\<in>set (playersById m). stealCandidate (mball m) owner q' \<longrightarrow>
              V_distSq (pos q) (bpos (mball m)) \<le> V_distSq (pos q') (bpos (mball m)))
        \<and> m' = setBallOwner m q"
      then obtain owner q where q: "q \<in> set (playersById m)" "stealCandidate (mball m) owner q"
        "m' = setBallOwner m q" by blast
      have "q \<noteq> p" using q(2) not_candidate_still[OF still] by auto
      then have "pid q \<noteq> pid p" using distinct_pid_eq[OF wf q(1) p] by auto
      then show ?thesis using Pair q(3) by (simp add: setBallOwner_owner)
    qed
  qed
  have c: "tryStealOwnedBallByBallContact m = (setBallOwner m p, Some p)"
    if t: "truthy (ownerPlayerId (mball m))"
      and lo: "lookupOwner (playersById m) (ownerPlayerId (mball m)) = Some owner"
      and p: "p \<in> set (playersById m)" and cand: "stealCandidate (mball m) owner p"
      and uniq: "\<forall>q\<in>set (playersById m). stealCandidate (mball m) owner q \<longrightarrow>
                  q = p \<or> V_distSq (pos p) (bpos (mball m)) < V_distSq (pos q) (bpos (mball m))"
    for owner p
  proof -
    from trySteal_candidate[OF t lo p cand] obtain q where
      q: "tryStealOwnedBallByBallContact m = (setBallOwner m q, Some q)"
         "q \<in> set (playersById m)" "stealCandidate (mball m) owner q"
         "V_distSq (pos q) (bpos (mball m)) \<le> V_distSq (pos p) (bpos (mball m))" by blast
    from uniq q(2,3,4) have "q = p" by fastforce
    with q(1) show ?thesis by simp
  qed
  have A: "\<forall>m' p. tryStealOwnedBallByBallContact m = (m', Some p) \<longrightarrow>
            p \<in> set (playersById m)
          \<and> V_distSq (pos p) (bpos (mball m)) \<le> stealContactR2 (mball m)
          \<and> STEAL_APPROACH_SPEED_MIN \<le> stealApproach (mball m) p
          \<and> \<not> kickImmune (mball m) p
          \<and> ownerPlayerId (mball m) \<noteq> Some (pid p)
          \<and> m' = setBallOwner m p \<and> ownerPlayerId (mball m') = Some (pid p)"
    using a by blast
  have B: "\<forall>p\<in>set (playersById m). vel p = \<lparr>vx = 0, vy = 0\<rparr> \<and> ownerPlayerId (mball m) \<noteq> Some (pid p) \<longrightarrow>
            ownerPlayerId (mball (fst (tryStealOwnedBallByBallContact m))) \<noteq> Some (pid p)"
    using b by blast
  have C: "\<forall>owner p. truthy (ownerPlayerId (mball m))
            \<and> lookupOwner (playersById m) (ownerPlayerId (mball m)) = Some owner
            \<and> p \<in> set (playersById m) \<and> stealCandidate (mball m) owner p
            \<and> (\<forall>q\<in>set (playersById m). stealCandidate (mball m) owner q \<longrightarrow>
                  q = p \<or> V_distSq (pos p) (bpos (mball m)) < V_distSq (pos q) (bpos (mball m)))
            \<longrightarrow> tryStealOwnedBallByBallContact m = (setBallOwner m p, Some p)"
    using c by blast
  have D: "\<forall>e inp dtMs m' s. stealCooldownMs e \<le> 0
            \<and> tryStealOwnedBallByBallContact (match e) = (m', Some s)
            \<longrightarrow> stealCooldownMs (stepOwnedBall e inp dtMs) = 650"
    using stepOwnedBall_steal_cooldown by blast
  have E: "\<forall>e inp dtMs. 0 < stealCooldownMs e \<longrightarrow>
            stealCooldownMs (stepOwnedBall e inp dtMs) = stealCooldownMs e
          \<and> (ownerPlayerId (mball (match (stepOwnedBall e inp dtMs))) = ownerPlayerId (mball (match e))
             \<or> ownerPlayerId (mball (match (stepOwnedBall e inp dtMs))) = None)"
    using stepOwnedBall_no_steal by blast
  show ?thesis
    by (rule conjI[OF A conjI[OF B conjI[OF C conjI[OF D E]]]])
qed

theorem steal_rule_witness:
  "distinct (map pid (playersById tackleMatch))
   \<and> truthy (ownerPlayerId (mball tackleMatch))
   \<and> lookupOwner (playersById tackleMatch) (ownerPlayerId (mball tackleMatch)) = Some dribbler
   \<and> tackler \<in> set (playersById tackleMatch)
   \<and> stealCandidate (mball tackleMatch) dribbler tackler
   \<and> tryStealOwnedBallByBallContact tackleMatch = (setBallOwner tackleMatch tackler, Some tackler)"
proof -
  have wf: "distinct (map pid (playersById tackleMatch))"
    by (simp add: tm_players example_defs tackler_def dribbler_def)
  have t: "truthy (ownerPlayerId (mball tackleMatch))" by (simp add: tm_ball truthy_def pId_def)
  show ?thesis
    using steal_rule[OF wf] wf t tm_owner tackler_in tackler_cand tm_cands by blast
qed


section \<open>Pass target selection\<close>

text \<open>
  C4, as stated: at or above the tap threshold the pass selects the farthest teammate of
  the lane band. At exactly the threshold (160 ms of charge) the code still treats the
  release as a tap: with two forwards 10 and 30 units straight ahead of the passer, both
  in the lane band, it selects the one at 10.
\<close>

theorem pass_at_threshold_counterexample:
  "ACTION_TAP_THRESHOLD_MS \<le> 160
   \<and> pickBestPassTarget passMatch ''kilo'' passer \<lparr>vx = 1, vy = 0\<rparr> (passPreferFar 160) = Some nearMate
   \<and> passLaneBand (passPool (List.map_filter (passCand passer (V_norm \<lparr>vx = 1, vy = 0\<rparr>))
        (getTeamPlayers passMatch ''kilo''))) = [candOf nearMate 10 10 0, candOf farMate 30 30 0]
   \<and> cdist (candOf nearMate 10 10 0) < cdist (candOf farMate 30 30 0)
   \<and> nearMate \<noteq> farMate"
proof -
  have "nearMate \<noteq> farMate" by (simp add: nearMate_def farMate_def makePlayer_def)
  moreover have "cdist (candOf nearMate 10 10 0) < cdist (candOf farMate 30 30 0)"
    by (simp add: candOf_def)
  ultimately show ?thesis
    using pick_passMatch[of "passPreferFar 160"]
    by (simp add: passPreferFar_def ACTION_TAP_THRESHOLD_MS_def V_norm_x1 team_passMatch cands_passMatch
        band_passMatch)
qed

text \<open>
  C4, amended. With a non-zero aim, the candidates are the teammates other than the
  passer that are at least 3 units away; the pool is the candidates more than one unit
  ahead along the aim, or all candidates when there is none; the hold counts as a hold
  only when the charge is strictly above the threshold. A tap selects the candidate of
  the pool with the smallest lateral deviation, then the smallest projection on the aim,
  then the smallest distance (among candidates ahead with equal lateral deviation the
  smaller projection is the smaller distance). A hold selects a candidate of the lane
  band that is the farthest along the aim among the band's candidates of equal lateral
  deviation.
\<close>

theorem pass_target_selection:
  assumes aim: "\<not> V_lenSq (V_norm aimDir) < 1 / 10 ^ 6"
      and cands: "cands = List.map_filter (passCand kicker (V_norm aimDir)) (getTeamPlayers m t)"
      and ne: "cands \<noteq> []"
  shows "(\<forall>charge. passPreferFar charge \<longleftrightarrow> charge > ACTION_TAP_THRESHOLD_MS)
       \<and> (\<forall>c\<in>set cands. cp c \<in> set (getTeamPlayers m t) \<and> pid (cp c) \<noteq> pid kicker \<and> 3 \<le> cdist c)
       \<and> passPool cands = (if \<exists>c\<in>set cands. cahead c > 1 then filter (\<lambda>c. cahead c > 1) cands else cands)
       \<and> (\<exists>c\<in>set (passLaneBand (passPool cands)).
             pickBestPassTarget m t kicker aimDir False = Some (cp c)
           \<and> (\<forall>c'\<in>set (passPool cands). clateral c \<le> clateral c'
                \<and> (clateral c' = clateral c \<longrightarrow> cahead c \<le> cahead c'
                     \<and> (cahead c' = cahead c \<longrightarrow> cdist c \<le> cdist c'))))
       \<and> (\<exists>c\<in>set (passLaneBand (passPool cands)).
             pickBestPassTarget m t kicker aimDir True = Some (cp c)
           \<and> (\<forall>c'\<in>set (passLaneBand (passPool cands)). clateral c' = clateral c \<longrightarrow>
                 cahead c' \<le> cahead c \<and> (cahead c' = cahead c \<longrightarrow> cdist c' \<le> cdist c)))
       \<and> (\<forall>c\<in>set cands. \<forall>c'\<in>set cands.
             clateral c = clateral c' \<and> 0 \<le> cahead c \<and> cahead c \<le> cahead c' \<longrightarrow> cdist c \<le> cdist c')"
proof -
  have A: "\<forall>charge. passPreferFar charge \<longleftrightarrow> charge > ACTION_TAP_THRESHOLD_MS"
    by (simp add: passPreferFar_def)
  have B: "\<forall>c\<in>set cands. cp c \<in> set (getTeamPlayers m t) \<and> pid (cp c) \<noteq> pid kicker \<and> 3 \<le> cdist c"
    unfolding cands by (auto simp: map_filter_mem dest!: passCand_Some)
  have C: "passPool cands = (if \<exists>c\<in>set cands. cahead c > 1 then filter (\<lambda>c. cahead c > 1) cands else cands)"
    by (rule passPool_eq)
  note D = pick_tap[OF aim cands ne]
  note E = pick_hold[OF aim cands ne]
  have F: "\<forall>c\<in>set cands. \<forall>c'\<in>set cands.
             clateral c = clateral c' \<and> 0 \<le> cahead c \<and> cahead c \<le> cahead c' \<longrightarrow> cdist c \<le> cdist c'"
    unfolding cands using cand_dist_mono[OF V_norm_nonzero_unit[OF aim]] by blast
  show ?thesis
    by (rule conjI[OF A conjI[OF B conjI[OF C conjI[OF D conjI[OF E F]]]]])
qed

theorem pass_target_selection_witness:
  "\<not> V_lenSq (V_norm \<lparr>vx = 1, vy = 0\<rparr>) < 1 / 10 ^ 6
   \<and> List.map_filter (passCand passer (V_norm \<lparr>vx = 1, vy = 0\<rparr>)) (getTeamPlayers passMatch ''kilo'') \<noteq> []
   \<and> pickBestPassTarget passMatch ''kilo'' passer \<lparr>vx = 1, vy = 0\<rparr> False = Some nearMate
   \<and> pickBestPassTarget passMatch ''kilo'' passer \<lparr>vx = 1, vy = 0\<rparr> True = Some farMate
   \<and> (\<forall>charge. passPreferFar charge \<longleftrightarrow> charge > ACTION_TAP_THRESHOLD_MS)"
proof -
  have a: "\<not> V_lenSq (V_norm \<lparr>vx = 1, vy = 0\<rparr>) < 1 / 10 ^ 6" by (simp add: V_norm_x1 V_lenSq_def)
  have n: "List.map_filter (passCand passer (V_norm \<lparr>vx = 1, vy = 0\<rparr>)) (getTeamPlayers passMatch ''kilo'') \<noteq> []"
    by (simp add: V_norm_x1 team_passMatch cands_passMatch)
  show ?thesis
    using pass_target_selection[OF a refl n] a n pick_passMatch[of False] pick_passMatch[of True]
    by simp
qed

text \<open>
  The header comment of \<open>pickBestPassTarget\<close> says that a hold picks a farther receiver in
  the same lane. The sort compares the lateral deviation first, so a farther teammate of
  the lane band is selected only when its lateral deviation ties: with the far forward
  one unit off the axis, inside the band, the hold still selects the near one.
\<close>

theorem hold_pass_keeps_nearest_to_ray:
  "passLaneBand (passPool (List.map_filter (passCand passer (V_norm \<lparr>vx = 1, vy = 0\<rparr>))
        (getTeamPlayers passMatchOffAxis ''kilo'')))
     = [candOf nearMate 10 10 0, candOf farMateOffAxis (V_len \<lparr>vx = 30, vy = 1\<rparr>) 30 1]
   \<and> 10 < V_len \<lparr>vx = 30, vy = 1\<rparr>
   \<and> pickBestPassTarget passMatchOffAxis ''kilo'' passer \<lparr>vx = 1, vy = 0\<rparr> True = Some nearMate"
proof -
  have "\<not> V_len \<lparr>vx = 30, vy = 1\<rparr> < 11" by (simp add: V_len_less_iff V_lenSq_def)
  then have "10 < V_len \<lparr>vx = 30, vy = 1\<rparr>" by simp
  then show ?thesis
    using pick_passMatchOffAxis[of True]
    by (simp add: V_norm_x1 team_passMatchOffAxis cands_passMatchOffAxis band_passMatch)
qed


section \<open>Kick release\<close>

text \<open>
  C5, as stated: for every kicker and every direction, a kick with \<open>speed = 0\<close> leaves the
  ball with a velocity of magnitude at least the minimum kick speed. It fails for a
  kicker who runs against the direction of the kick: the midfielder running back at 20
  and kicking forward releases the ball at speed 1.
\<close>

theorem releaseBallWithKick_min_speed_counterexample:
  "V_len (bvel (mball (releaseBallWithKick initialMatch midfielderRunningBack \<lparr>vx = 1, vy = 0\<rparr> 0)))
     < BALL_RELEASE_KICK_SPEED_MIN"
  by (simp add: releaseBallWithKick_def Let_def V_norm_def V_len_def V_lenSq_def
      midfielderRunningBack_def makePlayer_def BALL_RELEASE_KICK_SPEED_MIN_def)

text \<open>
  C5, amended: the released velocity is the normalized direction times
  \<open>max(speed, minimum kick speed)\<close> plus 35% of the kicker's velocity; with \<open>speed = 0\<close>
  its magnitude is at least the minimum kick speed whenever the direction is longer than
  the normalization threshold and the kicker's velocity has no component against it.
\<close>

theorem releaseBallWithKick_velocity:
  "bvel (mball (releaseBallWithKick m kicker dir speed)) =
     V_add (V_mul (V_norm dir) (max speed BALL_RELEASE_KICK_SPEED_MIN)) (V_mul (vel kicker) 0.35)
   \<and> (V_len dir > 1 / 10 ^ 9 \<and> 0 \<le> V_dot (vel kicker) (V_norm dir) \<longrightarrow>
        BALL_RELEASE_KICK_SPEED_MIN \<le> V_len (bvel (mball (releaseBallWithKick m kicker dir 0))))"
proof -
  have a: "bvel (mball (releaseBallWithKick m kicker dir speed)) =
     V_add (V_mul (V_norm dir) (max speed BALL_RELEASE_KICK_SPEED_MIN)) (V_mul (vel kicker) 0.35)"
    by (simp add: releaseBallWithKick_def Let_def V_add_def V_mul_def)
  have b: "BALL_RELEASE_KICK_SPEED_MIN \<le> V_len (bvel (mball (releaseBallWithKick m kicker dir 0)))"
    if h: "V_len dir > 1 / 10 ^ 9" "0 \<le> V_dot (vel kicker) (V_norm dir)"
  proof -
    have "8 \<le> V_len \<lparr>vx = vx (V_norm dir) * 8 + vx (vel kicker) * 0.35,
                      vy = vy (V_norm dir) * 8 + vy (vel kicker) * 0.35\<rparr>"
      using kick_speed_bound[OF V_norm_unit[OF h(1)] _ h(2), of 8] by simp
    then show ?thesis
      by (simp add: releaseBallWithKick_def Let_def BALL_RELEASE_KICK_SPEED_MIN_def)
  qed
  show ?thesis using a b by blast
qed

theorem releaseBallWithKick_velocity_witness:
  "V_len \<lparr>vx = 0, vy = 3\<rparr> > 1 / 10 ^ 9
   \<and> 0 \<le> V_dot (vel midfielderAtRest) (V_norm \<lparr>vx = 0, vy = 3\<rparr>)
   \<and> BALL_RELEASE_KICK_SPEED_MIN
       \<le> V_len (bvel (mball (releaseBallWithKick initialMatch midfielderAtRest \<lparr>vx = 0, vy = 3\<rparr> 0)))"
proof -
  have l: "V_len \<lparr>vx = 0, vy = 3\<rparr> = 3"
    using real_sqrt_abs2[of 3] by (simp add: V_len_def V_lenSq_def)
  have h1: "V_len \<lparr>vx = 0, vy = 3\<rparr> > 1 / 10 ^ 9" by (simp add: l)
  have h2: "0 \<le> V_dot (vel midfielderAtRest) (V_norm \<lparr>vx = 0, vy = 3\<rparr>)"
    by (simp add: V_dot_def midfielderAtRest_def)
  show ?thesis
    using releaseBallWithKick_velocity[of initialMatch midfielderAtRest "\<lparr>vx = 0, vy = 3\<rparr>" 0] h1 h2
    by blast
qed


section \<open>Kick immunity\<close>

text \<open>
  C6. While the kick-immunity countdown is positive and the ball is free, neither
  \<open>tryClaimBall\<close> nor the immediate pickup selects the player recorded as the last kicker
  (whose id, like every player id, is not empty); when every other player is out of
  range the ball stays free and the state is unchanged. The state right after
  \<open>releaseBallWithKick\<close> is such a state: the ball is free, the countdown is 220 and the
  kicker is recorded.
\<close>

theorem kicker_cannot_reclaim:
  assumes free: "ownerPlayerId (mball m) = None"
      and imm: "0 < kickNoPickupMs (mball m)"
      and lk: "lastKickPlayerId (mball m) = Some k" and k: "k \<noteq> []"
  shows "ownerPlayerId (mball (fst (tryClaimBall m))) \<noteq> Some k
       \<and> possPlayerId (snd (tryClaimBall m)) \<noteq> Some k
       \<and> ownerPlayerId (mball (fst (tryImmediateBallPickup m))) \<noteq> Some k
       \<and> (\<forall>p. snd (tryImmediateBallPickup m) = Some p \<longrightarrow> pid p \<noteq> k)
       \<and> ((\<forall>p\<in>set (playersById m). pid p \<noteq> k \<longrightarrow>
              BALL_CLAIM_DIST * BALL_CLAIM_DIST < V_distSq (pos p) (bpos (mball m)))
            \<longrightarrow> tryClaimBall m = (m, noPossession))
       \<and> ((\<forall>p\<in>set (playersById m). pid p \<noteq> k \<longrightarrow>
              pickupContactR2 (mball m) < V_distSq (pos p) (bpos (mball m)))
            \<longrightarrow> tryImmediateBallPickup m = (m, None))
       \<and> (\<forall>m0 kicker dir speed. pid kicker = k \<longrightarrow>
             ownerPlayerId (mball (releaseBallWithKick m0 kicker dir speed)) = None
           \<and> 0 < kickNoPickupMs (mball (releaseBallWithKick m0 kicker dir speed))
           \<and> lastKickPlayerId (mball (releaseBallWithKick m0 kicker dir speed)) = Some k)"
proof -
  note ki = kickImmune_lastKicker[OF imm lk k]
  have nt: "\<not> truthy (ownerPlayerId (mball m))" using free by (simp add: truthy_def)
  have c1: "ownerPlayerId (mball (fst (tryClaimBall m))) \<noteq> Some k
            \<and> possPlayerId (snd (tryClaimBall m)) \<noteq> Some k"
    using nt free
    by (auto simp: tryClaimBall_def Let_def noPossession_def ki dest!: nearest_Some
        split: option.splits prod.splits)
  have c2: "ownerPlayerId (mball (fst (tryImmediateBallPickup m))) \<noteq> Some k
       \<and> (\<forall>p. snd (tryImmediateBallPickup m) = Some p \<longrightarrow> pid p \<noteq> k)"
    using nt free
    by (auto simp: tryImmediateBallPickup_def Let_def setBallOwner_def ki dest!: nearest_Some
        split: option.splits prod.splits)
  have c3: "tryClaimBall m = (m, noPossession)"
    if "\<forall>p\<in>set (playersById m). pid p \<noteq> k \<longrightarrow>
          BALL_CLAIM_DIST * BALL_CLAIM_DIST < V_distSq (pos p) (bpos (mball m))"
    using nt that
    by (fastforce simp: tryClaimBall_def Let_def ki dest!: nearest_Some split: option.splits prod.splits)
  have c4: "tryImmediateBallPickup m = (m, None)"
    if "\<forall>p\<in>set (playersById m). pid p \<noteq> k \<longrightarrow>
          pickupContactR2 (mball m) < V_distSq (pos p) (bpos (mball m))"
    using nt that
    by (fastforce simp: tryImmediateBallPickup_def Let_def ki dest!: nearest_Some
        split: option.splits prod.splits)
  have c5: "\<forall>m0 kicker dir speed. pid kicker = k \<longrightarrow>
             ownerPlayerId (mball (releaseBallWithKick m0 kicker dir speed)) = None
           \<and> 0 < kickNoPickupMs (mball (releaseBallWithKick m0 kicker dir speed))
           \<and> lastKickPlayerId (mball (releaseBallWithKick m0 kicker dir speed)) = Some k"
    by (simp add: releaseBallWithKick_def Let_def)
  show ?thesis using c1 c2 c3 c4 c5 by blast
qed

text \<open>Witness: the midfielder kicks from on top of the ball; he is at distance 0 from
  it and everybody else is far away, and the immediate pickup leaves the ball free.\<close>

theorem kicker_cannot_reclaim_witness:
  "ownerPlayerId (mball (releaseBallWithKick matchMidfielderOnBall midfielderAtRest \<lparr>vx = 1, vy = 0\<rparr> 0)) = None
   \<and> 0 < kickNoPickupMs (mball (releaseBallWithKick matchMidfielderOnBall midfielderAtRest \<lparr>vx = 1, vy = 0\<rparr> 0))
   \<and> lastKickPlayerId (mball (releaseBallWithKick matchMidfielderOnBall midfielderAtRest \<lparr>vx = 1, vy = 0\<rparr> 0))
       = Some (pid midfielderAtRest)
   \<and> pid midfielderAtRest \<noteq> []
   \<and> V_distSq (pos midfielderAtRest) (bpos (mball matchMidfielderOnBall)) = 0
   \<and> tryImmediateBallPickup (releaseBallWithKick matchMidfielderOnBall midfielderAtRest \<lparr>vx = 1, vy = 0\<rparr> 0)
     = (releaseBallWithKick matchMidfielderOnBall midfielderAtRest \<lparr>vx = 1, vy = 0\<rparr> 0, None)"
proof -
  let ?m = "releaseBallWithKick matchMidfielderOnBall midfielderAtRest \<lparr>vx = 1, vy = 0\<rparr> 0"
  have b: "mball ?m = (mball initialMatch)\<lparr>ownerPlayerId := None, lastTouchTeamId := Some ''kilo'',
              lastKickPlayerId := Some (pId ''kilo'' ''3''), kickNoPickupMs := 220,
              bvel := \<lparr>vx = 8, vy = 0\<rparr>\<rparr>"
    by (simp add: releaseBallWithKick_def Let_def matchMidfielderOnBall_def midfielderAtRest_def
        midfielderRunningBack_def makePlayer_def V_norm_def V_len_def V_lenSq_def
        BALL_RELEASE_KICK_SPEED_MIN_def)
  have pk: "pid midfielderAtRest = pId ''kilo'' ''3''"
    by (simp add: midfielderAtRest_def midfielderRunningBack_def makePlayer_def)
  have h1: "ownerPlayerId (mball ?m) = None" by (simp add: b)
  have h2: "0 < kickNoPickupMs (mball ?m)" by (simp add: b)
  have h3: "lastKickPlayerId (mball ?m) = Some (pId ''kilo'' ''3'')" by (simp add: b)
  have h4: "pId ''kilo'' ''3'' \<noteq> []" by (simp add: pId_def)
  have far: "\<forall>p\<in>set (playersById ?m). pid p \<noteq> pId ''kilo'' ''3'' \<longrightarrow>
              pickupContactR2 (mball ?m) < V_distSq (pos p) (bpos (mball ?m))"
    unfolding b
    by (simp add: releaseBallWithKick_def Let_def matchMidfielderOnBall_def players_initialMatch
        homePlayers_def awayPlayers_def updP_def makePlayer_def pId_def midfielderAtRest_def
        midfielderRunningBack_def pickupContactR2_def PLAYER_RADIUS_def BALL_PICKUP_PAD_def
        V_distSq_def V_sub_def V_lenSq_def DEFAULT_ENGINE_CONFIG_def initialMatch_def createMatch_def)
  have d0: "V_distSq (pos midfielderAtRest) (bpos (mball matchMidfielderOnBall)) = 0"
    by (simp add: midfielderAtRest_def midfielderRunningBack_def makePlayer_def matchMidfielderOnBall_def
        initialMatch_def createMatch_def Let_def V_distSq_def V_sub_def V_lenSq_def)
  show ?thesis
    using kicker_cannot_reclaim[OF h1 h2 h3 h4] far d0 h1 h2 h3 h4 pk by simp
qed


section \<open>Pass and shoot released on the same tick\<close>




end
